theory Spec2Isabelle
  imports Main
begin

section \<open>JavaScript strings and arrays used by kepler-table.js\<close>

text \<open>
  Strings are lists of characters. Field names, suffixes and column names are taken to
  be ASCII: \<open>toLowerCase\<close> and the case-insensitive comparison of a regular expression
  are modelled on the letters A to Z only.
\<close>

definition toLowerCase_char :: "char \<Rightarrow> char" where
  "toLowerCase_char c =
     (let n = (of_char c :: nat) in if 65 \<le> n \<and> n \<le> 90 then char_of (n + 32) else c)"

definition toLowerCase :: "string \<Rightarrow> string" where
  "toLowerCase s = map toLowerCase_char s"

text \<open>\<open>s.endsWith(suf)\<close>.\<close>

definition endsWith :: "string \<Rightarrow> string \<Rightarrow> bool" where
  "endsWith s suf = (length suf \<le> length s \<and> drop (length s - length suf) s = suf)"

text \<open>
  A suffix is plain when it is made of letters, digits and underscores: such a string,
  read as a regular expression, matches itself and nothing else, and read as a
  replacement string it stands for itself. The suffixes of \<open>TRIP_POINT_FIELDS\<close> and the
  suffix \<open>_lat\<close> are plain; the regular expressions below are modelled for plain
  suffixes.
\<close>

definition isWordChar :: "char \<Rightarrow> bool" where
  "isWordChar c =
     (let n = (of_char c :: nat) in
        (48 \<le> n \<and> n \<le> 57) \<or> (65 \<le> n \<and> n \<le> 90) \<or> (97 \<le> n \<and> n \<le> 122) \<or> n = 95)"

definition plainText :: "string \<Rightarrow> bool" where
  "plainText s = list_all isWordChar s"

text \<open>
  \<open>fieldName.replace(new RegExp(`${s0}$`), s1)\<close>: the pattern is anchored at the end of
  the string and is not global, so the one occurrence of \<open>s0\<close> that ends the string is
  replaced; a string that does not end with \<open>s0\<close> is returned as it is.
\<close>

definition replaceAtEnd :: "string \<Rightarrow> string \<Rightarrow> string \<Rightarrow> string" where
  "replaceAtEnd s s0 s1 =
     (if endsWith s s0 then take (length s - length s0) s @ s1 else s)"

text \<open>
  \<open>layerName.replace(new RegExp(suffix, 'ig'), '')\<close>: every occurrence of the suffix,
  compared without regard to case, is deleted, scanning from the left and resuming
  after each occurrence. The empty pattern matches the empty string everywhere, and
  deleting it leaves the string as it is.
\<close>

definition matchesAtCI :: "string \<Rightarrow> string \<Rightarrow> bool" where
  "matchesAtCI pat s =
     (length pat \<le> length s \<and> toLowerCase (take (length pat) s) = toLowerCase pat)"

fun removeAllCI :: "string \<Rightarrow> string \<Rightarrow> string" where
  "removeAllCI pat [] = []"
| "removeAllCI pat (c # cs) =
     (if pat \<noteq> [] \<and> matchesAtCI pat (c # cs)
      then removeAllCI pat (drop (length pat - 1) cs)
      else c # removeAllCI pat cs)"

text \<open>\<open>.replace(/[_,.]+/g, ' ')\<close>: every maximal run of delimiters becomes one space.\<close>

definition isDelimiter :: "char \<Rightarrow> bool" where
  "isDelimiter c = (c = CHR ''_'' \<or> c = CHR '','' \<or> c = CHR ''.'')"

function replaceDelimiters :: "string \<Rightarrow> string" where
  "replaceDelimiters [] = []"
| "replaceDelimiters (c # cs) =
     (if isDelimiter c then CHR '' '' # replaceDelimiters (dropWhile isDelimiter cs)
      else c # replaceDelimiters cs)"
  by pat_completeness auto
termination
  by (relation "measure length") (auto simp: less_Suc_eq_le length_dropWhile_le)

text \<open>\<open>.trim()\<close>: the ASCII white space is tab, line feed, vertical tab, form feed,
  carriage return and space.\<close>

definition isWhiteSpace :: "char \<Rightarrow> bool" where
  "isWhiteSpace c = (let n = (of_char c :: nat) in (9 \<le> n \<and> n \<le> 13) \<or> n = 32)"

definition trim :: "string \<Rightarrow> string" where
  "trim s = rev (dropWhile isWhiteSpace (rev (dropWhile isWhiteSpace s)))"

text \<open>\<open>xs.findIndex(p)\<close>: the index of the first element that satisfies \<open>p\<close>, or -1.\<close>

primrec findIndex_from :: "('a \<Rightarrow> bool) \<Rightarrow> nat \<Rightarrow> 'a list \<Rightarrow> int" where
  "findIndex_from p i [] = -1"
| "findIndex_from p i (x # xs) = (if p x then int i else findIndex_from p (Suc i) xs)"

definition findIndex :: "('a \<Rightarrow> bool) \<Rightarrow> 'a list \<Rightarrow> int" where
  "findIndex p xs = findIndex_from p 0 xs"


section \<open>Helper functions of kepler-table.js\<close>

subsection \<open>removeSuffixAndDelimiters\<close>

definition removeSuffixAndDelimiters :: "string \<Rightarrow> string \<Rightarrow> string" where
  "removeSuffixAndDelimiters layerName suffix =
     trim (replaceDelimiters (removeAllCI suffix layerName))"

subsection \<open>findPointFieldPairs\<close>

text \<open>
  A field as the caller hands it to the table: \<open>name\<close>, \<open>type\<close> and the optional
  \<open>format\<close>; other attributes a caller may add are not read by this file and are left
  out. \<open>findPointFieldPairs\<close> reads the name only, so it is defined on every extension of
  this record.
\<close>

record rawField =
  name :: string
  type :: string
  format :: "string option"

record pointField =
  pointFieldIdx :: nat
  pointValue :: string

record latLng =
  lat :: pointField
  lng :: pointField

record fieldPair =
  defaultName :: string
  pair :: latLng
  suffix :: "string \<times> string"

text \<open>
  Modelled from the spec: the constant \<open>TRIP_POINT_FIELDS\<close> of
  constants/default-settings is not among the sources. The spec (4.6) describes it as a
  fixed ordered list of suffix pairs in the style of lat/lng; the list below is the one
  kepler.gl ships. \<open>findPointFieldPairs\<close> takes the list as its first argument, so that
  what is proved for every list does not rest on this value.
\<close>

definition TRIP_POINT_FIELDS :: "(string \<times> string) list" where
  "TRIP_POINT_FIELDS = [(''lat'', ''lng''), (''lat'', ''lon''), (''latitude'', ''longitude'')]"

text \<open>
  The \<open>for (const suffixPair of TRIP_POINT_FIELDS)\<close> loop for one field name: the first
  suffix pair whose first suffix ends the name and whose partner name is among
  \<open>allNames\<close> is returned with the partner's index; a pair whose partner is missing
  lets the loop go on; \<open>None\<close> when the loop runs to its end.
\<close>

fun suffixLoop ::
  "(string \<times> string) list \<Rightarrow> string list \<Rightarrow> string \<Rightarrow> ((string \<times> string) \<times> nat) option"
where
  "suffixLoop [] allNames fieldName = None"
| "suffixLoop (suffixPair # rest) allNames fieldName =
     (if endsWith fieldName (fst suffixPair) then
        (let partner = replaceAtEnd fieldName (fst suffixPair) (snd suffixPair);
             partnerIdx = findIndex (\<lambda>d. d = partner) allNames
         in if partnerIdx > -1 then Some (suffixPair, nat partnerIdx)
            else suffixLoop rest allNames fieldName)
      else suffixLoop rest allNames fieldName)"

text \<open>The callback of \<open>allNames.reduce\<close>: \<open>carry\<close> with at most one entry pushed.\<close>

definition reduceStep ::
  "(string \<times> string) list \<Rightarrow> ('a rawField_scheme) list \<Rightarrow> string list \<Rightarrow>
     fieldPair list \<Rightarrow> string \<times> nat \<Rightarrow> fieldPair list"
where
  "reduceStep tpf flds allNames carry fi =
     (case fi of (fieldName, idx) \<Rightarrow>
       (case suffixLoop tpf allNames fieldName of
          None \<Rightarrow> carry
        | Some (suffixPair, partnerIdx) \<Rightarrow>
            carry @
            [\<lparr>defaultName = removeSuffixAndDelimiters fieldName (fst suffixPair),
              pair = \<lparr>lat = \<lparr>pointFieldIdx = idx, pointValue = name (flds ! idx)\<rparr>,
                      lng = \<lparr>pointFieldIdx = partnerIdx,
                             pointValue = name (flds ! partnerIdx)\<rparr>\<rparr>,
              suffix = suffixPair\<rparr>]))"

definition findPointFieldPairs ::
  "(string \<times> string) list \<Rightarrow> ('a rawField_scheme) list \<Rightarrow> fieldPair list"
where
  "findPointFieldPairs tpf flds =
     (let allNames = map (\<lambda>f. toLowerCase (name f)) flds
      in foldl (reduceStep tpf flds allNames) [] (zip allNames [0..<length allNames]))"

text \<open>
  What the spec says of one field (4.6): among the suffix pairs, in their order, the
  first one that matches decides; a pair matches a field when its first suffix ends the
  lower-cased name and the name with the suffix exchanged for the second one is the
  lower-cased name of some field.
\<close>

definition pairMatches :: "string list \<Rightarrow> string \<Rightarrow> string \<times> string \<Rightarrow> bool" where
  "pairMatches allNames fieldName p =
     (endsWith fieldName (fst p) \<and> replaceAtEnd fieldName (fst p) (snd p) \<in> set allNames)"

definition firstMatchOfField ::
  "(string \<times> string) list \<Rightarrow> ('a rawField_scheme) list \<Rightarrow> nat \<Rightarrow> fieldPair list"
where
  "firstMatchOfField tpf flds idx =
     (let allNames = map (\<lambda>f. toLowerCase (name f)) flds;
          fieldName = allNames ! idx
      in case find (pairMatches allNames fieldName) tpf of
           None \<Rightarrow> []
         | Some p \<Rightarrow>
            (let partnerIdx =
                   nat (findIndex (\<lambda>d. d = replaceAtEnd fieldName (fst p) (snd p)) allNames)
             in [\<lparr>defaultName = removeSuffixAndDelimiters fieldName (fst p),
                   pair = \<lparr>lat = \<lparr>pointFieldIdx = idx, pointValue = name (flds ! idx)\<rparr>,
                           lng = \<lparr>pointFieldIdx = partnerIdx,
                                  pointValue = name (flds ! partnerIdx)\<rparr>\<rparr>,
                   suffix = p\<rparr>]))"



section \<open>The table and its store\<close>

text \<open>
  A \<open>KeplerTable\<close> is a mutable object: \<open>filterTable\<close> assigns to the attributes of
  \<open>this\<close>, \<open>filterTableCPU\<close> works on a copy, and \<open>sortDatasetByColumn\<close> returns either
  its argument or a new object. Objects therefore live in a store, a list of tables
  whose indices are the references; a method takes the store and the reference \<open>this\<close>
  and returns the new store. Arrays are never updated in place by this file (every
  array it stores is a new one or an existing one unchanged), so an array is a value of
  the table that holds it, and two tables that share an array hold equal lists.

  The one array the file updates in place is \<open>carry\<close> in \<open>findPointFieldPairs\<close>, which
  is local to the call; \<open>sortDatasetByColumn\<close> sorts a copy (\<open>slice\<close>).

  Values of JavaScript that the table only stores or passes on (colour, metadata, the
  GPU filter parameters, the layers) are values of one type \<open>'j\<close>; cell values and what
  a value accessor returns are of type \<open>'c\<close>; what a filter carries besides its \<open>id\<close>
  and its \<open>gpu\<close> flag is of type \<open>'p\<close>.

  Names are the source's, with these exceptions: the attribute \<open>id\<close> is \<open>id_table\<close> on
  a table and \<open>id_filter\<close> on a filter, the attribute \<open>fields\<close> is \<open>tableFields\<close> (both
  names are taken in HOL), the method \<open>_assetField\<close> is \<open>assetField\<close>, and a local
  variable that bears the name of an attribute has a 0 appended. The methods
  \<open>getColumnFilterProps\<close> and \<open>getColumnFilterDomain\<close> are not modelled; the first
  changes the store only through \<open>getColumnFieldIdx\<close> and \<open>updateColumnField\<close>, the
  second not at all.
\<close>

datatype exn = TypeError

datatype 'a jsOptional = Undefined | Null | Defined 'a

text \<open>\<open>xs[i]\<close> read out of range is \<open>undefined\<close>.\<close>

definition nth_opt :: "'a list \<Rightarrow> nat \<Rightarrow> 'a option" where
  "nth_opt xs i = (if i < length xs then Some (xs ! i) else None)"

text \<open>
  A field of a table: the caller's field with \<open>fieldIdx\<close> and \<open>valueAccessor\<close> added by
  the constructor. The accessor is applied to \<open>allData[i]\<close>, which is \<open>undefined\<close>
  (\<open>None\<close>) out of range, and it may throw.
\<close>

record 'c field = rawField +
  fieldIdx :: nat
  valueAccessor :: "'c list option \<Rightarrow> exn + 'c"

record 'p filterDescriptor =
  id_filter :: string
  gpu :: bool
  props :: 'p

record 'p filterRecord =
  dynamicDomain :: "'p filterDescriptor list"
  cpu :: "'p filterDescriptor list"

text \<open>The options of \<open>filterTable\<close>; a flag that is absent is false.\<close>

record filterOpt =
  cpuOnly :: bool
  ignoreDomain :: bool

text \<open>
  What \<open>diffFilters\<close> returns, as \<open>filterTable\<close> reads it: whether the entries
  \<open>dynamicDomain\<close> and \<open>cpu\<close> are truthy.
\<close>

record changedFilters =
  changed_dynamicDomain :: bool
  changed_cpu :: bool

text \<open>
  What \<open>filterDataByFilterTypes\<close> returns: an object whose attributes \<open>filteredIndex\<close>
  and \<open>filteredIndexForDomain\<close> are arrays or absent.
\<close>

record filterResult =
  result_filteredIndex :: "nat list option"
  result_filteredIndexForDomain :: "nat list option"

record ('c, 'p, 'j) table =
  id_table :: string
  label :: string
  color :: 'j
  metadata :: 'j
  allData :: "'c list list"
  allIndexes :: "nat list"
  filteredIndex :: "nat list"
  filteredIndexForDomain :: "nat list"
  fieldPairs :: "fieldPair list"
  tableFields :: "'c field list"
  gpuFilter :: 'j
  filterRecord :: "'p filterRecord option"
  filteredIdxCPU :: "nat list option"
  filterRecordCPU :: "'p filterRecord option"
  sortColumn :: "(string \<times> string option) list option"
  sortOrder :: "nat list jsOptional"

record ('c, 'p, 'j) state =
  objs :: "('c, 'p, 'j) table list"
  console :: "string list"

definition setObj ::
  "('c, 'p, 'j) state \<Rightarrow> nat \<Rightarrow> ('c, 'p, 'j) table \<Rightarrow> ('c, 'p, 'j) state" where
  "setObj st a t = st\<lparr>objs := (objs st)[a := t]\<rparr>"

definition alloc ::
  "('c, 'p, 'j) state \<Rightarrow> ('c, 'p, 'j) table \<Rightarrow> ('c, 'p, 'j) state \<times> nat" where
  "alloc st t = (st\<lparr>objs := objs st @ [t]\<rparr>, length (objs st))"

text \<open>
  The functions the file imports from other modules (utils/utils, utils/gpu-filter-utils,
  utils/filter-utils, utils/data-utils, utils/data-scale-utils, d3-array) are not among
  the sources: the methods take them as a record of parameters, and what is proved of
  a method holds for every choice of them. \<open>generateHashId\<close> stands for the identifier
  the generator hands to one run of the constructor.
\<close>

record ('c, 'p, 'j) ext =
  generateHashId :: "nat \<Rightarrow> string"
  maybeToDate :: "bool \<Rightarrow> nat \<Rightarrow> string option \<Rightarrow> 'c list option \<Rightarrow> exn + 'c"
  getGpuFilterProps :: "'p filterDescriptor list \<Rightarrow> string \<Rightarrow> 'c field list \<Rightarrow> 'j"
  getFilterRecord :: "string \<Rightarrow> 'p filterDescriptor list \<Rightarrow> filterOpt \<Rightarrow> 'p filterRecord"
  diffFilters :: "'p filterRecord \<Rightarrow> 'p filterRecord option \<Rightarrow> changedFilters"
  getDatasetFieldIndexForFilter :: "string \<Rightarrow> 'p filterDescriptor \<Rightarrow> int"
  getFilterFunction ::
    "'c field jsOptional \<Rightarrow> string \<Rightarrow> 'p filterDescriptor \<Rightarrow> 'j \<Rightarrow> ('c list \<Rightarrow> bool)"
  filterDataByFilterTypes ::
    "'p filterDescriptor list option \<Rightarrow> 'p filterDescriptor list option \<Rightarrow>
       (string \<Rightarrow> ('c list \<Rightarrow> bool) option) \<Rightarrow> 'c list list \<Rightarrow> filterResult"
  getOrdinalDomain :: "'c list list \<Rightarrow> ('c list option \<Rightarrow> exn + 'c) \<Rightarrow> 'c list"
  getQuantileDomain :: "nat list \<Rightarrow> (nat \<Rightarrow> exn + 'c) \<Rightarrow> ('c \<Rightarrow> 'c \<Rightarrow> int) \<Rightarrow> 'c list"
  getLogDomain :: "nat list \<Rightarrow> (nat \<Rightarrow> exn + 'c) \<Rightarrow> 'c list"
  getLinearDomain :: "nat list \<Rightarrow> (nat \<Rightarrow> exn + 'c) \<Rightarrow> 'c list"
  getSortingFunction :: "string \<Rightarrow> ('c \<Rightarrow> 'c \<Rightarrow> int)"
  ascending :: "'c option \<Rightarrow> 'c option \<Rightarrow> int"
  descending :: "'c option \<Rightarrow> 'c option \<Rightarrow> int"

subsection \<open>Constants of constants/default-settings\<close>

text \<open>
  Modelled from the spec: \<open>ALL_FIELD_TYPES\<close> is not among the sources. The spec names
  the field types (3: real, integer, boolean, string, date, timestamp, geojson); the
  constant maps each name to itself, and the file reads \<open>ALL_FIELD_TYPES.timestamp\<close>
  only.
\<close>

definition ALL_FIELD_TYPES_timestamp :: string where
  "ALL_FIELD_TYPES_timestamp = ''timestamp''"

text \<open>
  Modelled from the spec: \<open>SCALE_TYPES\<close> is not among the sources. The spec names the
  scale types (4.5: ordinal, point, quantile, log, quantize, linear, sqrt); the constant
  maps each name to itself, so \<open>SCALE_TYPES[k]\<close> is \<open>k\<close> for a name of the list and
  \<open>undefined\<close> (\<open>None\<close>) for any other key.
\<close>

definition SCALE_TYPES :: "string \<Rightarrow> string option" where
  "SCALE_TYPES k =
     (if k \<in> set [''ordinal'', ''quantile'', ''quantize'', ''linear'', ''sqrt'', ''log'', ''point'']
      then Some k else None)"

text \<open>
  Modelled from the spec: \<open>SORT_ORDER\<close> is not among the sources. The spec names the
  sort modes (6: ASCENDING, DESCENDING, UNSORT); the constant maps each name to itself.
\<close>

definition SORT_ORDER :: "string \<Rightarrow> string option" where
  "SORT_ORDER k = (if k \<in> set [''ASCENDING'', ''DESCENDING'', ''UNSORT''] then Some k else None)"

subsection \<open>The constructor\<close>

text \<open>
  \<open>new KeplerTable({info, data, color, metadata})\<close> makes a new object. \<open>info\<close> may be
  absent, and so may its \<open>id\<close> and its \<open>label\<close>: the generated identifier and the label
  \<open>new dataset\<close> stand in for them. Every field gets its position and its accessor;
  \<open>allIndexes\<close> is the index of every row, as \<open>allData.map((_, i) => i)\<close> makes it.
\<close>

record datasetInfo =
  info_id :: "string option"
  info_label :: "string option"

record 'c tableData =
  dataFields :: "rawField list"
  rows :: "'c list list"

definition KeplerTable ::
  "('c, 'p, 'j) ext \<Rightarrow> ('c, 'p, 'j) state \<Rightarrow> datasetInfo option \<Rightarrow> 'c tableData \<Rightarrow> 'j \<Rightarrow> 'j \<Rightarrow>
     ('c, 'p, 'j) state \<times> nat"
where
  "KeplerTable ext st info data color0 metadata0 =
     (let allData0 = rows data;
          info0 = (case info of None \<Rightarrow> \<lparr>info_id = None, info_label = None\<rparr> | Some i \<Rightarrow> i);
          datasetInfo_id = (case info_id info0 of None \<Rightarrow> generateHashId ext 4 | Some i \<Rightarrow> i);
          datasetInfo_label = (case info_label info0 of None \<Rightarrow> ''new dataset'' | Some l \<Rightarrow> l);
          dataId = datasetInfo_id;
          flds = map (\<lambda>(f, i).
                   \<lparr>name = name f, type = type f, format = format f, fieldIdx = i,
                    valueAccessor =
                      maybeToDate ext (type f = ALL_FIELD_TYPES_timestamp) i (format f)\<rparr>)
                   (zip (dataFields data) [0..<length (dataFields data)]);
          allIndexes0 = map snd (zip allData0 [0..<length allData0])
      in alloc st
           \<lparr>id_table = datasetInfo_id, label = datasetInfo_label, color = color0,
            metadata = metadata0, allData = allData0, allIndexes = allIndexes0,
            filteredIndex = allIndexes0, filteredIndexForDomain = allIndexes0,
            fieldPairs = findPointFieldPairs TRIP_POINT_FIELDS flds, tableFields = flds,
            gpuFilter = getGpuFilterProps ext [] dataId flds,
            filterRecord = None, filteredIdxCPU = None, filterRecordCPU = None,
            sortColumn = None, sortOrder = Undefined\<rparr>)"

subsection \<open>Field lookup\<close>

definition assetField ::
  "('c, 'p, 'j) state \<Rightarrow> nat \<Rightarrow> string \<Rightarrow> bool \<Rightarrow> ('c, 'p, 'j) state" where
  "assetField st this fieldName condition =
     (if \<not> condition
      then st\<lparr>console := console st @
                 [fieldName @ '' doesnt exist in dataset '' @ id_table (objs st ! this)]\<rparr>
      else st)"

definition getColumnField ::
  "('c, 'p, 'j) state \<Rightarrow> nat \<Rightarrow> string \<Rightarrow> ('c, 'p, 'j) state \<times> 'c field option" where
  "getColumnField st this columnName =
     (let fld = find (\<lambda>fd. name fd = columnName) (tableFields (objs st ! this))
      in (assetField st this columnName (fld \<noteq> None), fld))"

definition getColumnFieldIdx ::
  "('c, 'p, 'j) state \<Rightarrow> nat \<Rightarrow> string \<Rightarrow> ('c, 'p, 'j) state \<times> int" where
  "getColumnFieldIdx st this columnName =
     (let fieldIdx0 = findIndex (\<lambda>fd. name fd = columnName) (tableFields (objs st ! this))
      in (assetField st this columnName (fieldIdx0 > -1), fieldIdx0))"

text \<open>\<open>getValue\<close> returns \<open>null\<close> (\<open>Inr None\<close>) when the field is absent, and what the
  accessor returns or throws otherwise.\<close>

definition getValue ::
  "('c, 'p, 'j) state \<Rightarrow> nat \<Rightarrow> string \<Rightarrow> nat \<Rightarrow> ('c, 'p, 'j) state \<times> (exn + 'c option)" where
  "getValue st this columnName rowIdx =
     (case getColumnField st this columnName of
        (st1, fld) \<Rightarrow>
          (st1, case fld of
                  Some f \<Rightarrow>
                    (case valueAccessor f (nth_opt (allData (objs st1 ! this)) rowIdx) of
                       Inl e \<Rightarrow> Inl e
                     | Inr v \<Rightarrow> Inr (Some v))
                | None \<Rightarrow> Inr None))"

subsection \<open>updateColumnField\<close>

text \<open>
  \<open>Object.assign([...this.fields], {[fieldIdx]: newField})\<close>: a copy of the array with
  the entry at \<open>fieldIdx\<close> replaced; at \<open>fieldIdx = length\<close> the copy grows by the new
  entry. Beyond that JavaScript makes an array with holes, which the lists of this
  model cannot hold: the result is \<open>None\<close> there.
\<close>

definition assignIndex :: "'a list \<Rightarrow> nat \<Rightarrow> 'a \<Rightarrow> 'a list option" where
  "assignIndex xs i v =
     (if i < length xs then Some (xs[i := v])
      else if i = length xs then Some (xs @ [v])
      else None)"

definition updateColumnField ::
  "('c, 'p, 'j) state \<Rightarrow> nat \<Rightarrow> nat \<Rightarrow> 'c field \<Rightarrow> ('c, 'p, 'j) state option" where
  "updateColumnField st this fieldIdx0 newField =
     (case assignIndex (tableFields (objs st ! this)) fieldIdx0 newField of
        None \<Rightarrow> None
      | Some flds \<Rightarrow> Some (setObj st this ((objs st ! this)\<lparr>tableFields := flds\<rparr>)))"

subsection \<open>filterTable\<close>

text \<open>\<open>fields[fieldIndex]\<close> for the index \<open>getDatasetFieldIndexForFilter\<close> returns.\<close>

definition fieldAt :: "'a list \<Rightarrow> int \<Rightarrow> 'a jsOptional" where
  "fieldAt flds fieldIndex =
     (if fieldIndex \<noteq> -1
      then (if 0 \<le> fieldIndex \<and> nat fieldIndex < length flds
            then Defined (flds ! nat fieldIndex) else Undefined)
      else Null)"

text \<open>The object \<open>filterFuncs\<close> built by \<open>filters.reduce\<close>: a later filter with the same
  \<open>id\<close> replaces an earlier one.\<close>

definition filterFuncsOf ::
  "('c, 'p, 'j) ext \<Rightarrow> string \<Rightarrow> 'c field list \<Rightarrow> 'j \<Rightarrow> 'p filterDescriptor list \<Rightarrow>
     (string \<Rightarrow> ('c list \<Rightarrow> bool) option)"
where
  "filterFuncsOf ext tableId flds layers filters =
     foldl (\<lambda>acc flt.
              (let fieldIndex = getDatasetFieldIndexForFilter ext tableId flt;
                   fld = fieldAt flds fieldIndex
               in acc(id_filter flt \<mapsto> getFilterFunction ext fld tableId flt layers)))
           Map.empty filters"

text \<open>
  \<open>filterTable\<close> assigns \<open>filterRecord\<close> and \<open>gpuFilter\<close>, and returns \<open>this\<close>. Without
  filters both index sequences become \<open>allIndexes\<close>. With filters, the rows are scanned
  when \<open>diffFilters\<close> reports a change, and the last two assignments are the source's:
  \<open>this.filteredIndex = filterResult.filteredIndexForDomain || this.filteredIndexForDomain\<close>,
  then \<open>this.filteredIndexForDomain = filterResult.filteredIndex || this.filteredIndex\<close>,
  which reads the \<open>filteredIndex\<close> just assigned. An array is truthy even when empty.
\<close>

definition filterTable ::
  "('c, 'p, 'j) ext \<Rightarrow> ('c, 'p, 'j) state \<Rightarrow> nat \<Rightarrow> 'p filterDescriptor list \<Rightarrow> 'j \<Rightarrow>
     filterOpt option \<Rightarrow> ('c, 'p, 'j) state \<times> nat"
where
  "filterTable ext st this filters layers opt =
     (let t = objs st ! this;
          allData0 = allData t;
          dataId = id_table t;
          oldFilterRecord = filterRecord t;
          flds = tableFields t;
          filterRecord0 =
            getFilterRecord ext dataId filters
              (case opt of None \<Rightarrow> \<lparr>cpuOnly = False, ignoreDomain = False\<rparr> | Some opt0 \<Rightarrow> opt0);
          t1 = t\<lparr>filterRecord := Some filterRecord0,
                 gpuFilter := getGpuFilterProps ext filters dataId flds\<rparr>
      in if filters = [] then
           (setObj st this
              (t1\<lparr>filteredIndex := allIndexes t1, filteredIndexForDomain := allIndexes t1\<rparr>),
            this)
         else
           (let changed = diffFilters ext filterRecord0 oldFilterRecord;
                shouldCalDomain = changed_dynamicDomain changed;
                shouldCalIndex = changed_cpu changed;
                filterResult0 =
                  (if shouldCalDomain \<or> shouldCalIndex then
                     (let dynamicDomainFilters =
                            (if shouldCalDomain then Some (dynamicDomain filterRecord0) else None);
                          cpuFilters = (if shouldCalIndex then Some (cpu filterRecord0) else None);
                          filterFuncs = filterFuncsOf ext (id_table t1) flds layers filters
                      in filterDataByFilterTypes ext dynamicDomainFilters cpuFilters filterFuncs
                           allData0)
                   else \<lparr>result_filteredIndex = None, result_filteredIndexForDomain = None\<rparr>);
                t2 = t1\<lparr>filteredIndex :=
                          (case result_filteredIndexForDomain filterResult0 of
                             Some xs \<Rightarrow> xs
                           | None \<Rightarrow> filteredIndexForDomain t1)\<rparr>;
                t3 = t2\<lparr>filteredIndexForDomain :=
                          (case result_filteredIndex filterResult0 of
                             Some xs \<Rightarrow> xs
                           | None \<Rightarrow> filteredIndex t2)\<rparr>
            in (setObj st this t3, this)))"

subsection \<open>filterTableCPU\<close>

text \<open>
  \<open>copyTable\<close> is \<open>Object.assign(Object.create(Object.getPrototypeOf(original)),
  original)\<close>: a new object with the attributes of the original. \<open>filterTableCPU\<close>
  returns \<open>this\<close> when there is no filter or no filter with the \<open>gpu\<close> flag, and the
  filtered copy otherwise.
\<close>

definition copyTable :: "('c, 'p, 'j) state \<Rightarrow> nat \<Rightarrow> ('c, 'p, 'j) state \<times> nat" where
  "copyTable st original = alloc st (objs st ! original)"

definition filterTableCPU ::
  "('c, 'p, 'j) ext \<Rightarrow> ('c, 'p, 'j) state \<Rightarrow> nat \<Rightarrow> 'p filterDescriptor list \<Rightarrow> 'j \<Rightarrow>
     ('c, 'p, 'j) state \<times> nat"
where
  "filterTableCPU ext st this filters layers =
     (let opt = \<lparr>cpuOnly = True, ignoreDomain = True\<rparr>;
          t = objs st ! this
      in if filters = [] then
           (setObj st this
              (t\<lparr>filteredIdxCPU := Some (allIndexes t),
                 filterRecordCPU := Some (getFilterRecord ext (id_table t) filters opt)\<rparr>),
            this)
         else if find gpu filters = None then
           (setObj st this
              (t\<lparr>filteredIdxCPU := Some (filteredIndex t),
                 filterRecordCPU := Some (getFilterRecord ext (id_table t) filters opt)\<rparr>),
            this)
         else
           (case copyTable st this of
              (st1, copied) \<Rightarrow>
                (let c = objs st1 ! copied;
                     st2 = setObj st1 copied
                             (c\<lparr>filterRecord := filterRecordCPU (objs st1 ! this),
                                filteredIndex :=
                                  (case filteredIdxCPU (objs st1 ! this) of
                                     Some xs \<Rightarrow> xs
                                   | None \<Rightarrow> [])\<rparr>)
                 in case filterTable ext st2 copied filters layers (Some opt) of
                      (st3, filtered) \<Rightarrow>
                        (setObj st3 this
                           ((objs st3 ! this)
                              \<lparr>filteredIdxCPU := Some (filteredIndex (objs st3 ! filtered)),
                               filterRecordCPU := filterRecord (objs st3 ! filtered)\<rparr>),
                         filtered))))"

subsection \<open>getColumnLayerDomain\<close>

text \<open>
  \<open>getColumnLayerDomain\<close> returns \<open>null\<close> (\<open>None\<close>) with a line on the console for a
  scale type that \<open>SCALE_TYPES\<close> does not hold; the cases of the \<open>switch\<close> are tried in
  the source's order, and \<open>quantize\<close>, \<open>linear\<close>, \<open>sqrt\<close> and the default share the
  linear domain.
\<close>

definition getColumnLayerDomain ::
  "('c, 'p, 'j) ext \<Rightarrow> ('c, 'p, 'j) state \<Rightarrow> nat \<Rightarrow> 'c field \<Rightarrow> string \<Rightarrow>
     ('c, 'p, 'j) state \<times> 'c list option"
where
  "getColumnLayerDomain ext st this fld scaleType =
     (let t = objs st ! this;
          allData0 = allData t;
          filteredIndexForDomain0 = filteredIndexForDomain t
      in if SCALE_TYPES scaleType = None \<or> SCALE_TYPES scaleType = Some [] then
           (st\<lparr>console := console st @ [''scale type '' @ scaleType @ '' not supported'']\<rparr>,
            None)
         else
           (let valueAccessor0 = valueAccessor fld;
                indexValueAccessor = (\<lambda>i. valueAccessor0 (nth_opt allData0 i));
                sortFunction = getSortingFunction ext (type fld)
            in (st,
                Some
                  (if Some scaleType = SCALE_TYPES ''ordinal''
                      \<or> Some scaleType = SCALE_TYPES ''point''
                   then getOrdinalDomain ext allData0 valueAccessor0
                   else if Some scaleType = SCALE_TYPES ''quantile''
                   then getQuantileDomain ext filteredIndexForDomain0 indexValueAccessor
                          sortFunction
                   else if Some scaleType = SCALE_TYPES ''log''
                   then getLogDomain ext filteredIndexForDomain0 indexValueAccessor
                   else getLinearDomain ext filteredIndexForDomain0 indexValueAccessor))))"

subsection \<open>sortDatasetByColumn\<close>

text \<open>
  \<open>Array.prototype.sort\<close> with a comparator is a stable sort: an element goes before
  the first later element it does not compare greater than.
\<close>

fun insertBy :: "('a \<Rightarrow> 'a \<Rightarrow> int) \<Rightarrow> 'a \<Rightarrow> 'a list \<Rightarrow> 'a list" where
  "insertBy cmp x [] = [x]"
| "insertBy cmp x (y # ys) = (if cmp x y \<le> 0 then x # y # ys else y # insertBy cmp x ys)"

definition js_sort :: "('a \<Rightarrow> 'a \<Rightarrow> int) \<Rightarrow> 'a list \<Rightarrow> 'a list" where
  "js_sort cmp xs = foldr (insertBy cmp) xs []"

text \<open>
  \<open>allData[a][fieldIndex]\<close>: a cell, \<open>undefined\<close> (\<open>None\<close>) when the row is too short.
  The comparator throws a TypeError when \<open>allData[a]\<close> is \<open>undefined\<close>; with two or
  more indexes to sort every index is compared at least once.
\<close>

definition cellAt :: "'c list list \<Rightarrow> nat \<Rightarrow> nat \<Rightarrow> 'c option" where
  "cellAt allData0 fieldIndex a =
     (case nth_opt allData0 a of None \<Rightarrow> None | Some r \<Rightarrow> nth_opt r fieldIndex)"

text \<open>
  \<open>sortDatasetByColumn\<close> returns its argument when the column is not a field, and a new
  object \<open>{...dataset, sortColumn, sortOrder}\<close> otherwise. A mode that \<open>SORT_ORDER\<close> does
  not hold sorts in ascending order.
\<close>

definition sortDatasetByColumn ::
  "('c, 'p, 'j) ext \<Rightarrow> ('c, 'p, 'j) state \<Rightarrow> nat \<Rightarrow> string \<Rightarrow> string \<Rightarrow>
     exn + ('c, 'p, 'j) state \<times> nat"
where
  "sortDatasetByColumn ext st dataset column mode =
     (let d = objs st ! dataset;
          allIndexes0 = allIndexes d;
          flds = tableFields d;
          allData0 = allData d;
          fieldIndex = findIndex (\<lambda>f. name f = column) flds
      in if fieldIndex < 0 then Inr (st, dataset)
         else
           (let sortBy = (case SORT_ORDER mode of
                            Some v \<Rightarrow> if v \<noteq> [] then Some v else SORT_ORDER ''ASCENDING''
                          | None \<Rightarrow> SORT_ORDER ''ASCENDING'')
            in if sortBy = SORT_ORDER ''UNSORT'' then
                 Inr (alloc st (d\<lparr>sortColumn := Some [], sortOrder := Null\<rparr>))
               else
                 (let sortFunction =
                        (if sortBy = SORT_ORDER ''ASCENDING'' then ascending ext
                         else descending ext)
                  in if 2 \<le> length allIndexes0 \<and> (\<exists>a \<in> set allIndexes0. length allData0 \<le> a)
                     then Inl TypeError
                     else
                       (let sortOrder0 =
                              js_sort (\<lambda>a b. sortFunction (cellAt allData0 (nat fieldIndex) a)
                                                           (cellAt allData0 (nat fieldIndex) b))
                                allIndexes0
                        in Inr (alloc st
                                  (d\<lparr>sortColumn :=
                                       Some [(column, sortBy)],
                                     sortOrder := Defined sortOrder0\<rparr>))))))"


section \<open>Sequences of calls and reachable stores\<close>

text \<open>A call of \<open>filterTable\<close>: the table it is applied to and its three arguments.\<close>

type_synonym ('p, 'j) filterCall = "nat \<times> 'p filterDescriptor list \<times> 'j \<times> filterOpt option"

definition filterTables ::
  "('c, 'p, 'j) ext \<Rightarrow> ('c, 'p, 'j) state \<Rightarrow> ('p, 'j) filterCall list \<Rightarrow> ('c, 'p, 'j) state"
where
  "filterTables ext st calls =
     foldl (\<lambda>s call. case call of (target, filters, layers, opt) \<Rightarrow>
                        fst (filterTable ext s target filters layers opt))
           st calls"

text \<open>
  The stores a program can build: it starts with no object, makes tables with the
  constructor and calls the methods and \<open>sortDatasetByColumn\<close> on objects of the store.
\<close>

inductive reachable :: "('c, 'p, 'j) ext \<Rightarrow> ('c, 'p, 'j) state \<Rightarrow> bool"
  for ext :: "('c, 'p, 'j) ext"
where
  r_init: "reachable ext \<lparr>objs = [], console = []\<rparr>"
| r_new: "reachable ext st \<Longrightarrow> reachable ext (fst (KeplerTable ext st info data c m))"
| r_getColumnField:
    "reachable ext st \<Longrightarrow> this < length (objs st) \<Longrightarrow>
     reachable ext (fst (getColumnField st this columnName))"
| r_getColumnFieldIdx:
    "reachable ext st \<Longrightarrow> this < length (objs st) \<Longrightarrow>
     reachable ext (fst (getColumnFieldIdx st this columnName))"
| r_getValue:
    "reachable ext st \<Longrightarrow> this < length (objs st) \<Longrightarrow>
     reachable ext (fst (getValue st this columnName rowIdx))"
| r_updateColumnField:
    "reachable ext st \<Longrightarrow> this < length (objs st) \<Longrightarrow>
     updateColumnField st this i newField = Some st' \<Longrightarrow> reachable ext st'"
| r_filterTable:
    "reachable ext st \<Longrightarrow> this < length (objs st) \<Longrightarrow>
     reachable ext (fst (filterTable ext st this filters layers opt))"
| r_filterTableCPU:
    "reachable ext st \<Longrightarrow> this < length (objs st) \<Longrightarrow>
     reachable ext (fst (filterTableCPU ext st this filters layers))"
| r_getColumnLayerDomain:
    "reachable ext st \<Longrightarrow> this < length (objs st) \<Longrightarrow>
     reachable ext (fst (getColumnLayerDomain ext st this fld scaleType))"
| r_sortDatasetByColumn:
    "reachable ext st \<Longrightarrow> dataset < length (objs st) \<Longrightarrow>
     sortDatasetByColumn ext st dataset column mode = Inr (st', r) \<Longrightarrow> reachable ext st'"


section \<open>The collaborators as the spec describes them\<close>

text \<open>
  Modelled from the spec: the functions of utils/filter-utils, utils/gpu-filter-utils,
  utils/data-utils and utils/data-scale-utils are not among the sources. The
  definitions below follow the spec's sections 4.1 to 4.4 for tables of integer cells
  (\<open>None\<close> is a cell that is null or undefined) and range filters; they give the
  methods a concrete record of collaborators to run with.

  A filter carries, besides \<open>id\<close> and \<open>gpu\<close>: whether its domain is fixed, the index of
  its field in the table (-1 when the table has no such field), and its value, a range.
\<close>

record rangeProps =
  fixedDomain :: bool
  fieldIndex :: int
  range_lo :: int
  range_hi :: int

text \<open>Modelled from the spec: \<open>getFilterRecord\<close> (4.3, classify). A filter is evaluated
  on the CPU unless it is GPU-eligible and \<open>cpuOnly\<close> is off; it drives the domain unless
  its domain is fixed or \<open>ignoreDomain\<close> is on.\<close>

definition spec_getFilterRecord ::
  "string \<Rightarrow> rangeProps filterDescriptor list \<Rightarrow> filterOpt \<Rightarrow> rangeProps filterRecord" where
  "spec_getFilterRecord dataId filters opt =
     \<lparr>dynamicDomain = filter (\<lambda>f. \<not> (fixedDomain (props f) \<or> ignoreDomain opt)) filters,
      cpu = filter (\<lambda>f. \<not> (gpu f \<and> \<not> cpuOnly opt)) filters\<rparr>"

text \<open>Modelled from the spec: \<open>diffFilters\<close> (4.3, diff). A group has changed when its
  filters, compared by id and value, are not those of the previous record; without a
  previous record the previous groups are empty.\<close>

definition filterKeys :: "rangeProps filterDescriptor list \<Rightarrow> (string \<times> int \<times> int) set" where
  "filterKeys fs = set (map (\<lambda>f. (id_filter f, range_lo (props f), range_hi (props f))) fs)"

definition spec_diffFilters ::
  "rangeProps filterRecord \<Rightarrow> rangeProps filterRecord option \<Rightarrow> changedFilters" where
  "spec_diffFilters new old =
     \<lparr>changed_dynamicDomain =
        (filterKeys (dynamicDomain new) \<noteq>
         filterKeys (case old of None \<Rightarrow> [] | Some r \<Rightarrow> dynamicDomain r)),
      changed_cpu =
        (filterKeys (cpu new) \<noteq> filterKeys (case old of None \<Rightarrow> [] | Some r \<Rightarrow> cpu r))\<rparr>"

text \<open>Modelled from the spec: \<open>getFilterFunction\<close> (4.2). A range filter keeps a row
  whose cell lies in the range; a cell that is null or undefined is excluded; a filter
  whose field is not in the table keeps every row.\<close>

definition spec_getFilterFunction ::
  "int option field jsOptional \<Rightarrow> string \<Rightarrow> rangeProps filterDescriptor \<Rightarrow> unit \<Rightarrow>
     (int option list \<Rightarrow> bool)" where
  "spec_getFilterFunction fld tableId flt layers =
     (case fld of
        Defined f \<Rightarrow>
          (\<lambda>row. case nth_opt row (fieldIdx f) of
                    Some (Some v) \<Rightarrow> range_lo (props flt) \<le> v \<and> v \<le> range_hi (props flt)
                  | _ \<Rightarrow> False)
      | _ \<Rightarrow> (\<lambda>row. True))"

text \<open>Modelled from the spec: \<open>filterDataByFilterTypes\<close> (4.4). One scan of the rows; a
  group that is given yields the ascending indices of the rows that all its filters
  keep, a group that is not given yields nothing.\<close>

definition rowPasses ::
  "(string \<Rightarrow> ('c list \<Rightarrow> bool) option) \<Rightarrow> 'p filterDescriptor list \<Rightarrow> 'c list \<Rightarrow> bool" where
  "rowPasses filterFuncs fs row =
     list_all (\<lambda>f. case filterFuncs (id_filter f) of Some p \<Rightarrow> p row | None \<Rightarrow> True) fs"

definition spec_filterDataByFilterTypes ::
  "'p filterDescriptor list option \<Rightarrow> 'p filterDescriptor list option \<Rightarrow>
     (string \<Rightarrow> ('c list \<Rightarrow> bool) option) \<Rightarrow> 'c list list \<Rightarrow> filterResult" where
  "spec_filterDataByFilterTypes dynamicDomainFilters cpuFilters filterFuncs allData0 =
     \<lparr>result_filteredIndex =
        map_option (\<lambda>fs. filter (\<lambda>i. rowPasses filterFuncs fs (allData0 ! i))
                            [0..<length allData0]) cpuFilters,
      result_filteredIndexForDomain =
        map_option (\<lambda>fs. filter (\<lambda>i. rowPasses filterFuncs fs (allData0 ! i))
                            [0..<length allData0]) dynamicDomainFilters\<rparr>"

text \<open>Modelled from the spec: \<open>maybeToDate\<close> (3, the value accessor). The accessor of a
  field returns the cell at the field's index; integer cells need no coercion. Applied
  to \<open>undefined\<close> instead of a row it throws.\<close>

definition spec_maybeToDate ::
  "bool \<Rightarrow> nat \<Rightarrow> string option \<Rightarrow> int option list option \<Rightarrow> exn + int option" where
  "spec_maybeToDate isTime i fmt row =
     (case row of
        None \<Rightarrow> Inl TypeError
      | Some r \<Rightarrow> Inr (case nth_opt r i of Some v \<Rightarrow> v | None \<Rightarrow> None))"

text \<open>Modelled from the spec: the domain calculators of utils/data-scale-utils (4.1)
  work on the values an accessor yields, leaving out what is null or undefined.\<close>

definition valuesOf :: "'a list \<Rightarrow> ('a \<Rightarrow> exn + int option) \<Rightarrow> int list" where
  "valuesOf xs acc =
     concat (map (\<lambda>x. case acc x of Inr (Some v) \<Rightarrow> [v] | _ \<Rightarrow> []) xs)"

text \<open>Modelled from the spec: \<open>getOrdinalDomain\<close> (4.1). The distinct values in the order
  of their first occurrence.\<close>

definition distinctFirst :: "'a list \<Rightarrow> 'a list" where
  "distinctFirst xs = rev (remdups (rev xs))"

definition spec_getOrdinalDomain ::
  "int option list list \<Rightarrow> (int option list option \<Rightarrow> exn + int option) \<Rightarrow> int option list" where
  "spec_getOrdinalDomain allData0 acc =
     map Some (distinctFirst (valuesOf (map Some allData0) acc))"

text \<open>Modelled from the spec: \<open>getLinearDomain\<close>, \<open>getLogDomain\<close> and
  \<open>getQuantileDomain\<close> (4.1). Linear domain: minimum and maximum; log domain: the same
  over the positive values; both are empty when there is no value. Quantile domain: the
  sorted values.\<close>

definition minMax :: "int list \<Rightarrow> int option list" where
  "minMax vs = (case vs of [] \<Rightarrow> [] | v # rest \<Rightarrow> [Some (fold min rest v), Some (fold max rest v)])"

definition spec_getLinearDomain :: "nat list \<Rightarrow> (nat \<Rightarrow> exn + int option) \<Rightarrow> int option list" where
  "spec_getLinearDomain idxs acc = minMax (valuesOf idxs acc)"

definition spec_getLogDomain :: "nat list \<Rightarrow> (nat \<Rightarrow> exn + int option) \<Rightarrow> int option list" where
  "spec_getLogDomain idxs acc = minMax (filter (\<lambda>v. 0 < v) (valuesOf idxs acc))"

definition spec_getQuantileDomain ::
  "nat list \<Rightarrow> (nat \<Rightarrow> exn + int option) \<Rightarrow> (int option \<Rightarrow> int option \<Rightarrow> int) \<Rightarrow> int option list"
where
  "spec_getQuantileDomain idxs acc sortFunction =
     js_sort sortFunction (map Some (valuesOf idxs acc))"

text \<open>Modelled from the spec: \<open>getSortingFunction\<close>, \<open>ascending\<close> and \<open>descending\<close> (6).
  Comparators for ascending and descending order; values that cannot be compared count
  as equal.\<close>

definition compareCells :: "int option \<Rightarrow> int option \<Rightarrow> int" where
  "compareCells a b =
     (case (a, b) of
        (Some x, Some y) \<Rightarrow> (if x < y then -1 else if y < x then 1 else 0)
      | _ \<Rightarrow> 0)"

definition spec_ascending :: "int option option \<Rightarrow> int option option \<Rightarrow> int" where
  "spec_ascending a b =
     (case (a, b) of (Some x, Some y) \<Rightarrow> compareCells x y | _ \<Rightarrow> 0)"

definition spec_descending :: "int option option \<Rightarrow> int option option \<Rightarrow> int" where
  "spec_descending a b = spec_ascending b a"

definition specExt :: "(int option, rangeProps, unit) ext" where
  "specExt =
     \<lparr>generateHashId = (\<lambda>n. replicate n CHR ''x''),
      maybeToDate = spec_maybeToDate,
      getGpuFilterProps = (\<lambda>filters dataId flds. ()),
      getFilterRecord = spec_getFilterRecord,
      diffFilters = spec_diffFilters,
      getDatasetFieldIndexForFilter = (\<lambda>tableId flt. fieldIndex (props flt)),
      getFilterFunction = spec_getFilterFunction,
      filterDataByFilterTypes = spec_filterDataByFilterTypes,
      getOrdinalDomain = spec_getOrdinalDomain,
      getQuantileDomain = spec_getQuantileDomain,
      getLogDomain = spec_getLogDomain,
      getLinearDomain = spec_getLinearDomain,
      getSortingFunction = (\<lambda>t. compareCells),
      ascending = spec_ascending,
      descending = spec_descending\<rparr>"

subsection \<open>A table to run the methods on\<close>

text \<open>Three rows of one integer column \<open>v\<close> with the cells 1, 2 and 3, and a second
  column \<open>Lat\<close>.\<close>

definition demoData :: "int option tableData" where
  "demoData =
     \<lparr>dataFields = [\<lparr>name = ''v'', type = ''integer'', format = None\<rparr>,
                    \<lparr>name = ''Lat'', type = ''real'', format = None\<rparr>],
      rows = [[Some 1, Some 10], [Some 2, Some 20], [Some 3, Some 30]]\<rparr>"

definition demoState :: "(int option, rangeProps, unit) state" where
  "demoState =
     fst (KeplerTable specExt \<lparr>objs = [], console = []\<rparr>
            (Some \<lparr>info_id = Some ''t1'', info_label = None\<rparr>) demoData () ())"

text \<open>A filter on column \<open>v\<close> that keeps the cells from \<open>lo\<close> to \<open>hi\<close>.\<close>

definition rangeFilter :: "string \<Rightarrow> bool \<Rightarrow> bool \<Rightarrow> int \<Rightarrow> int \<Rightarrow> rangeProps filterDescriptor" where
  "rangeFilter i g fixed lo hi =
     \<lparr>id_filter = i, gpu = g,
      props = \<lparr>fixedDomain = fixed, fieldIndex = 0, range_lo = lo, range_hi = hi\<rparr>\<rparr>"

definition exampleFields :: "rawField list" where
  "exampleFields =
     map (\<lambda>n. \<lparr>name = n, type = ''real'', format = None\<rparr>)
       [''pickup_lat'', ''pickup_lng'', ''dropoff_lat'', ''dropoff_lng'', ''name'']"


subsection \<open>The invariant of the index sequence\<close>

text \<open>\<open>allIndexes\<close> is the ascending sequence of all row indices.\<close>

definition tableOk :: "('c, 'p, 'j) table \<Rightarrow> bool" where
  "tableOk t = (allIndexes t = [0..<length (allData t)])"

definition tablesOk :: "('c, 'p, 'j) state \<Rightarrow> bool" where
  "tablesOk st = list_all tableOk (objs st)"


definition demoFilter :: "rangeProps filterDescriptor" where
  "demoFilter = rangeFilter ''f'' False True 1 2"


text \<open>The table after one call of \<open>filterTable\<close> with \<open>demoFilter\<close>.\<close>

definition demoFiltered :: "(int option, rangeProps, unit) state" where
  "demoFiltered = fst (filterTable specExt demoState 0 [demoFilter] () None)"

text \<open>A GPU-eligible filter on column \<open>v\<close> whose domain is not fixed.\<close>

definition gpuFilterDemo :: "rangeProps filterDescriptor" where
  "gpuFilterDemo = rangeFilter ''g'' True False 2 3"

definition lonField :: "int option field" where
  "lonField = \<lparr>name = ''lon'', type = ''real'', format = None, fieldIdx = 1,
                valueAccessor = spec_maybeToDate False 1 None\<rparr>"

text \<open>The store after sorting the table by column \<open>v\<close> in descending order: the sorted
  dataset is the object 1.\<close>

definition demoSorted :: "(int option, rangeProps, unit) state" where
  "demoSorted =
     (case sortDatasetByColumn specExt demoState 0 ''v'' ''DESCENDING'' of
        Inl e \<Rightarrow> demoState | Inr (st, r) \<Rightarrow> st)"

text \<open>The spec's example of an ordinal domain: a column with the values a, b, a, c
  (here 1, 2, 1, 3), then a range filter that keeps the values from 2 to 3.\<close>

definition ordinalData :: "int option tableData" where
  "ordinalData =
     \<lparr>dataFields = [\<lparr>name = ''category'', type = ''integer'', format = None\<rparr>],
      rows = [[Some 1], [Some 2], [Some 1], [Some 3]]\<rparr>"

definition ordinalState :: "(int option, rangeProps, unit) state" where
  "ordinalState = fst (KeplerTable specExt \<lparr>objs = [], console = []\<rparr> None ordinalData () ())"

text \<open>Fields whose latitude has a partner under the second suffix pair only.\<close>

definition lonFields :: "rawField list" where
  "lonFields =
     map (\<lambda>n. \<lparr>name = n, type = ''real'', format = None\<rparr>) [''Start_Lat'', ''start_lon'', ''lat'']"

subsection \<open>The copy that filterTableCPU filters\<close>

text \<open>
  The store in the middle of \<open>filterTableCPU\<close>, after \<open>copied.filterTable(filters,
  layers, opt)\<close>: the copy of \<open>this\<close> is the new object at the end of the store, with
  \<open>filterRecord\<close> and \<open>filteredIndex\<close> taken from the CPU cache of \<open>this\<close>, and filtered.
\<close>

definition cpuCopy ::
  "('c, 'p, 'j) ext \<Rightarrow> ('c, 'p, 'j) state \<Rightarrow> nat \<Rightarrow> 'p filterDescriptor list \<Rightarrow> 'j \<Rightarrow>
     ('c, 'p, 'j) state"
where
  "cpuCopy ext st this filters layers =
     fst (filterTable ext
            (fst (alloc st ((objs st ! this)
                    \<lparr>filterRecord := filterRecordCPU (objs st ! this),
                     filteredIndex := (case filteredIdxCPU (objs st ! this) of
                                         Some xs \<Rightarrow> xs | None \<Rightarrow> [])\<rparr>)))
            (length (objs st)) filters layers (Some \<lparr>cpuOnly = True, ignoreDomain = True\<rparr>))"


section \<open>Properties of the helper functions\<close>

lemma findIndex_from_ge: "findIndex_from p i xs = -1 \<or> int i \<le> findIndex_from p i xs"
  by (induction xs arbitrary: i) (auto, force)

lemma findIndex_from_found: "(findIndex_from p i xs > -1) = (\<exists>x \<in> set xs. p x)"
proof (induction xs arbitrary: i)
  case Nil
  show ?case by simp
next
  case (Cons x xs)
  show ?case using Cons.IH [of "Suc i"] by auto
qed

lemma findIndex_found: "(findIndex p xs > -1) = (\<exists>x \<in> set xs. p x)"
  by (simp add: findIndex_def findIndex_from_found)

lemma suffixLoop_find:
  "suffixLoop tpf allNames fieldName =
     (case find (pairMatches allNames fieldName) tpf of
        None \<Rightarrow> None
      | Some p \<Rightarrow>
          Some (p, nat (findIndex (\<lambda>d. d = replaceAtEnd fieldName (fst p) (snd p)) allNames)))"
proof (induction tpf)
  case Nil
  show ?case by simp
next
  case (Cons p rest)
  have found: "(findIndex (\<lambda>d. d = replaceAtEnd fieldName (fst p) (snd p)) allNames > -1)
      = (replaceAtEnd fieldName (fst p) (snd p) \<in> set allNames)"
    by (auto simp: findIndex_found)
  show ?case
    using Cons.IH found by (simp add: pairMatches_def Let_def)
qed

lemma foldl_reduceStep:
  "foldl (reduceStep tpf flds allNames) carry xs =
     carry @ concat (map (reduceStep tpf flds allNames []) xs)"
proof (induction xs arbitrary: carry)
  case Nil
  show ?case by simp
next
  case (Cons fi xs)
  have step: "reduceStep tpf flds allNames carry fi = carry @ reduceStep tpf flds allNames [] fi"
    by (simp add: reduceStep_def split: prod.splits option.splits)
  show ?case
    by (simp add: step Cons.IH)
qed

lemma map_zip_upt:
  "map f (zip xs [0..<length xs]) = map (\<lambda>i. f (xs ! i, i)) [0..<length xs]"
  by (rule nth_equalityI) simp_all

lemma reduceStep_firstMatch:
  "idx < length flds \<Longrightarrow>
   reduceStep tpf flds (map (\<lambda>f. toLowerCase (name f)) flds) []
      (map (\<lambda>f. toLowerCase (name f)) flds ! idx, idx) = firstMatchOfField tpf flds idx"
  by (simp add: reduceStep_def firstMatchOfField_def suffixLoop_find Let_def split: option.splits)


subsection \<open>Removing a suffix, replacing delimiters, trimming\<close>

lemma dropWhile_append_all:
  "\<forall>x \<in> set xs. P x \<Longrightarrow> dropWhile P (xs @ ys) = dropWhile P ys"
  by (induction xs) auto

lemma removeAllCI_empty: "removeAllCI [] s = s"
  by (induction s) simp_all

lemma length_toLowerCase_eq: "toLowerCase m = toLowerCase pat \<Longrightarrow> length m = length pat"
  unfolding toLowerCase_def by (rule map_eq_imp_length_eq)

lemma removeAllCI_occurrence:
  assumes "pat \<noteq> []" and "toLowerCase m = toLowerCase pat"
  shows "removeAllCI pat (m @ b) = removeAllCI pat b"
proof -
  have len: "length m = length pat" using assms(2) by (rule length_toLowerCase_eq)
  then obtain c m' where m: "m = c # m'" using assms(1) by (cases m) auto
  have tk: "take (length pat) (m @ b) = m" using len by simp
  have "matchesAtCI pat (m @ b)"
    using len assms(2) by (simp add: matchesAtCI_def tk)
  then have "removeAllCI pat (m @ b) = removeAllCI pat (drop (length pat - 1) (m' @ b))"
    using assms(1) unfolding m by simp
  also have "drop (length pat - 1) (m' @ b) = b"
    using len unfolding m by (simp add: len [symmetric])
  finally show ?thesis .
qed

lemma removeAllCI_no_occurrence:
  "\<not> matchesAtCI pat (c # cs) \<Longrightarrow> removeAllCI pat (c # cs) = c # removeAllCI pat cs"
  by simp

lemma removeAllCI_prefix:
  "(\<forall>i < length a. \<not> matchesAtCI pat (drop i (a @ r))) \<Longrightarrow>
   removeAllCI pat (a @ r) = a @ removeAllCI pat r"
proof (induction a)
  case Nil
  show ?case by simp
next
  case (Cons c a)
  have h0: "\<not> matchesAtCI pat (c # a @ r)" using Cons.prems [rule_format, of 0] by simp
  have "\<forall>i < length a. \<not> matchesAtCI pat (drop i (a @ r))"
  proof (intro allI impI)
    fix i assume "i < length a"
    then show "\<not> matchesAtCI pat (drop i (a @ r))"
      using Cons.prems [rule_format, of "Suc i"] by simp
  qed
  then show ?case using Cons.IH h0 by simp
qed

lemma removeAllCI_suffix_only:
  assumes "pat \<noteq> []" and "toLowerCase m = toLowerCase pat"
    and "\<forall>i < length base. \<not> matchesAtCI pat (drop i (base @ m))"
  shows "removeAllCI pat (base @ m) = base"
  using removeAllCI_prefix [OF assms(3)] removeAllCI_occurrence [OF assms(1,2), of "[]"]
  by simp

lemma replaceDelimiters_keeps:
  "list_all (\<lambda>c. \<not> isDelimiter c) a \<Longrightarrow> replaceDelimiters (a @ b) = a @ replaceDelimiters b"
  by (induction a) simp_all

lemma dropWhile_hd_id: "xs = [] \<or> \<not> P (hd xs) \<Longrightarrow> dropWhile P xs = xs"
  by (cases xs) auto

lemma replaceDelimiters_run:
  assumes "ds \<noteq> []" and "list_all isDelimiter ds" and "b = [] \<or> \<not> isDelimiter (hd b)"
  shows "replaceDelimiters (ds @ b) = CHR '' '' # replaceDelimiters b"
proof -
  obtain d ds' where ds: "ds = d # ds'" using assms(1) by (cases ds) auto
  have "dropWhile isDelimiter (ds' @ b) = dropWhile isDelimiter b"
    using assms(2) unfolding ds by (intro dropWhile_append_all) (simp add: list_all_iff)
  also have "\<dots> = b" using assms(3) by (rule dropWhile_hd_id)
  finally show ?thesis using assms(2) unfolding ds by simp
qed

lemma replaceDelimiters_no_delimiter:
  "list_all (\<lambda>c. \<not> isDelimiter c) (replaceDelimiters s)"
  by (induction s rule: replaceDelimiters.induct) (simp_all add: isDelimiter_def)

lemma dropWhile_all: "\<forall>x \<in> set xs. P x \<Longrightarrow> dropWhile P xs = []"
  by (induction xs) auto

lemma set_trim: "set (trim s) \<subseteq> set s"
proof
  fix x assume "x \<in> set (trim s)"
  then have "x \<in> set (dropWhile isWhiteSpace (rev (dropWhile isWhiteSpace s)))"
    by (simp add: trim_def)
  then have "x \<in> set (rev (dropWhile isWhiteSpace s))" by (rule set_dropWhileD)
  then have "x \<in> set (dropWhile isWhiteSpace s)" by simp
  then show "x \<in> set s" by (rule set_dropWhileD)
qed

lemma trim_core:
  assumes "list_all isWhiteSpace lead" and "list_all isWhiteSpace trail"
    and "core = [] \<or> (\<not> isWhiteSpace (hd core) \<and> \<not> isWhiteSpace (last core))"
  shows "trim (lead @ core @ trail) = core"
proof (cases "core = []")
  case True
  have d: "dropWhile isWhiteSpace (lead @ [] @ trail) = []"
    using assms(1,2) by (intro dropWhile_all) (auto simp: list_all_iff)
  show ?thesis unfolding True trim_def d by simp
next
  case False
  then have h: "\<not> isWhiteSpace (hd core)" and l: "\<not> isWhiteSpace (last core)"
    using assms(3) by simp_all
  have "dropWhile isWhiteSpace (lead @ core @ trail) = dropWhile isWhiteSpace (core @ trail)"
    using assms(1) by (intro dropWhile_append_all) (simp add: list_all_iff)
  also have "\<dots> = core @ trail"
    using False h by (intro dropWhile_hd_id) simp
  finally have dropped: "dropWhile isWhiteSpace (lead @ core @ trail) = core @ trail" .
  have "dropWhile isWhiteSpace (rev trail @ rev core) = dropWhile isWhiteSpace (rev core)"
    using assms(2) by (intro dropWhile_append_all) (simp add: list_all_iff)
  also have "\<dots> = rev core"
    using False l by (intro dropWhile_hd_id) (simp add: hd_rev)
  finally show ?thesis by (simp add: trim_def dropped)
qed

lemma last_dropWhile: "dropWhile P xs \<noteq> [] \<Longrightarrow> last (dropWhile P xs) = last xs"
  by (induction xs) (auto split: if_splits)

lemma trim_trimmed:
  assumes "trim s \<noteq> []"
  shows "\<not> isWhiteSpace (hd (trim s)) \<and> \<not> isWhiteSpace (last (trim s))"
proof -
  let ?t = "dropWhile isWhiteSpace s"
  let ?u = "dropWhile isWhiteSpace (rev ?t)"
  have u: "?u \<noteq> []" using assms by (simp add: trim_def)
  have t: "?t \<noteq> []"
  proof
    assume "?t = []"
    then have "?u = []" by (simp only: rev.simps dropWhile.simps)
    then show False using u by simp
  qed
  have hu: "\<not> isWhiteSpace (hd ?u)" using u by (rule hd_dropWhile)
  have ht: "\<not> isWhiteSpace (hd ?t)" using t by (rule hd_dropWhile)
  have "last ?u = last (rev ?t)" using u by (rule last_dropWhile)
  also have "\<dots> = hd ?t" using t by (simp add: last_rev)
  finally have lu: "last ?u = hd ?t" .
  have "hd (trim s) = last ?u" using u by (simp add: trim_def hd_rev)
  moreover have "last (trim s) = hd ?u" using u by (simp add: trim_def last_rev)
  ultimately show ?thesis using hu ht lu by simp
qed

lemma removeSuffixAndDelimiters_no_delimiter:
  "list_all (\<lambda>c. \<not> isDelimiter c) (removeSuffixAndDelimiters layerName sfx)"
  using replaceDelimiters_no_delimiter [of "removeAllCI sfx layerName"]
    set_trim [of "replaceDelimiters (removeAllCI sfx layerName)"]
  by (auto simp: removeSuffixAndDelimiters_def list_all_iff)

lemma whiteSpace_not_delimiter: "isWhiteSpace c \<Longrightarrow> \<not> isDelimiter c"
  by (auto simp: isWhiteSpace_def isDelimiter_def Let_def)

lemma removeAllCI_middle:
  assumes "sfx \<noteq> []" and "toLowerCase m = toLowerCase sfx"
    and "list_all (\<lambda>i. \<not> matchesAtCI sfx (drop i (a @ m @ b))) [0..<length a]"
  shows "removeAllCI sfx (a @ m @ b) = a @ removeAllCI sfx b"
proof -
  have "\<forall>i < length a. \<not> matchesAtCI sfx (drop i (a @ m @ b))"
    using assms(3) by (simp add: list_all_iff)
  then have "removeAllCI sfx (a @ m @ b) = a @ removeAllCI sfx (m @ b)"
    by (rule removeAllCI_prefix)
  then show ?thesis by (simp add: removeAllCI_occurrence [OF assms(1,2)])
qed

lemma removeAllCI_none:
  assumes "list_all (\<lambda>i. \<not> matchesAtCI sfx (drop i s)) [0..<length s]"
  shows "removeAllCI sfx s = s"
proof -
  have "\<forall>i < length s. \<not> matchesAtCI sfx (drop i (s @ []))"
    using assms by (simp add: list_all_iff)
  then have "removeAllCI sfx (s @ []) = s @ removeAllCI sfx []"
    by (rule removeAllCI_prefix)
  then show ?thesis by simp
qed

lemma removeSuffixAndDelimiters_words:
  assumes sfx: "sfx \<noteq> []" "toLowerCase m = toLowerCase sfx"
    and ws: "list_all isWhiteSpace lead" "list_all isWhiteSpace trail"
    and wordA: "wordA \<noteq> []" "list_all (\<lambda>c. \<not> isDelimiter c) wordA" "\<not> isWhiteSpace (hd wordA)"
    and wordB: "wordB \<noteq> []" "list_all (\<lambda>c. \<not> isDelimiter c) wordB" "\<not> isWhiteSpace (last wordB)"
    and ds: "ds \<noteq> []" "list_all isDelimiter ds"
    and occ: "list_all (\<lambda>i. \<not> matchesAtCI sfx (drop i ((lead @ wordA @ ds @ wordB) @ m @ trail)))
                [0..<length (lead @ wordA @ ds @ wordB)]"
             "list_all (\<lambda>i. \<not> matchesAtCI sfx (drop i trail)) [0..<length trail]"
  shows "removeSuffixAndDelimiters ((lead @ wordA @ ds @ wordB) @ m @ trail) sfx = wordA @ CHR '' '' # wordB"
proof -
  have r: "removeAllCI sfx ((lead @ wordA @ ds @ wordB) @ m @ trail) = (lead @ wordA @ ds @ wordB) @ trail"
    using removeAllCI_middle [OF sfx occ(1)] removeAllCI_none [OF occ(2)] by simp
  have ndA: "list_all (\<lambda>c. \<not> isDelimiter c) (lead @ wordA)"
    using ws(1) wordA(2) by (auto simp: list_all_iff whiteSpace_not_delimiter)
  have ndB: "list_all (\<lambda>c. \<not> isDelimiter c) (wordB @ trail)"
    using ws(2) wordB(2) by (auto simp: list_all_iff whiteSpace_not_delimiter)
  have hdB: "wordB @ trail = [] \<or> \<not> isDelimiter (hd (wordB @ trail))"
    using wordB(1,2) by (cases wordB) simp_all
  have "replaceDelimiters ((lead @ wordA) @ ds @ (wordB @ trail)) =
          (lead @ wordA) @ replaceDelimiters (ds @ (wordB @ trail))"
    using ndA by (rule replaceDelimiters_keeps)
  also have "replaceDelimiters (ds @ (wordB @ trail)) = CHR '' '' # replaceDelimiters (wordB @ trail)"
    using ds hdB by (rule replaceDelimiters_run)
  also have "replaceDelimiters (wordB @ trail) = wordB @ trail"
    using replaceDelimiters_keeps [OF ndB, of "[]"] by simp
  finally have d: "replaceDelimiters ((lead @ wordA @ ds @ wordB) @ trail) =
      lead @ (wordA @ CHR '' '' # wordB) @ trail"
    by simp
  have "trim (lead @ (wordA @ CHR '' '' # wordB) @ trail) = wordA @ CHR '' '' # wordB"
    using ws
  proof (rule trim_core)
    show "wordA @ CHR '' '' # wordB = [] \<or>
        \<not> isWhiteSpace (hd (wordA @ CHR '' '' # wordB)) \<and> \<not> isWhiteSpace (last (wordA @ CHR '' '' # wordB))"
      using wordA(1,3) wordB(1,3) by simp
  qed
  then show ?thesis by (simp only: removeSuffixAndDelimiters_def r d)
qed

lemma removeSuffixAndDelimiters_trimmed:
  "removeSuffixAndDelimiters layerName sfx \<noteq> [] \<Longrightarrow>
   \<not> isWhiteSpace (hd (removeSuffixAndDelimiters layerName sfx)) \<and>
   \<not> isWhiteSpace (last (removeSuffixAndDelimiters layerName sfx))"
  unfolding removeSuffixAndDelimiters_def by (rule trim_trimmed)


section \<open>Properties of the store and the methods\<close>

lemma objs_setObj [simp]: "objs (setObj st a t) = (objs st)[a := t]"
  by (simp add: setObj_def)

lemma console_setObj [simp]: "console (setObj st a t) = console st"
  by (simp add: setObj_def)

lemma objs_alloc [simp]: "objs (fst (alloc st t)) = objs st @ [t]"
  by (simp add: alloc_def)

lemma console_alloc [simp]: "console (fst (alloc st t)) = console st"
  by (simp add: alloc_def)

lemma snd_alloc [simp]: "snd (alloc st t) = length (objs st)"
  by (simp add: alloc_def)

lemma tablesOk_nth: "tablesOk st \<Longrightarrow> a < length (objs st) \<Longrightarrow> tableOk (objs st ! a)"
  by (simp add: tablesOk_def list_all_length)

lemma tablesOk_setObj: "tablesOk st \<Longrightarrow> tableOk t \<Longrightarrow> tablesOk (setObj st a t)"
  unfolding tablesOk_def list_all_iff using set_update_subset_insert [of "objs st" a t]
  by auto

lemma tablesOk_alloc: "tablesOk st \<Longrightarrow> tableOk t \<Longrightarrow> tablesOk (fst (alloc st t))"
  by (simp add: tablesOk_def)

lemma tablesOk_console [simp]: "tablesOk (st\<lparr>console := c\<rparr>) = tablesOk st"
  by (simp add: tablesOk_def)

lemma map_snd_zip_upt: "map snd (zip xs [0..<length xs]) = [0..<length xs]"
  by (simp add: map_snd_zip)

lemma tablesOk_KeplerTable:
  "tablesOk st \<Longrightarrow> tablesOk (fst (KeplerTable ext st info data c m))"
  unfolding KeplerTable_def Let_def
  by (rule tablesOk_alloc) (simp_all add: tableOk_def map_snd_zip_upt)

lemma tablesOk_assetField [simp]: "tablesOk (assetField st this n b) = tablesOk st"
  by (simp add: assetField_def)

lemma tablesOk_getColumnField:
  "tablesOk st \<Longrightarrow> tablesOk (fst (getColumnField st this n))"
  by (simp add: getColumnField_def Let_def)

lemma tablesOk_getColumnFieldIdx:
  "tablesOk st \<Longrightarrow> tablesOk (fst (getColumnFieldIdx st this n))"
  by (simp add: getColumnFieldIdx_def Let_def)

lemma tablesOk_getValue:
  "tablesOk st \<Longrightarrow> tablesOk (fst (getValue st this n r))"
  by (simp add: getValue_def getColumnField_def Let_def)

lemma tablesOk_updateColumnField:
  "tablesOk st \<Longrightarrow> this < length (objs st) \<Longrightarrow>
   updateColumnField st this i newField = Some st' \<Longrightarrow> tablesOk st'"
  by (auto simp: updateColumnField_def tableOk_def split: option.splits
      intro!: tablesOk_setObj dest: tablesOk_nth)

lemma snd_filterTable [simp]: "snd (filterTable ext st this filters layers opt) = this"
  by (simp add: filterTable_def Let_def)

lemma length_objs_filterTable [simp]:
  "length (objs (fst (filterTable ext st this filters layers opt))) = length (objs st)"
  by (simp add: filterTable_def Let_def)

lemma console_filterTable [simp]:
  "console (fst (filterTable ext st this filters layers opt)) = console st"
  by (simp add: filterTable_def Let_def)

lemma allData_update:
  "allData t = allData (xs ! a) \<Longrightarrow> allData (xs[a := t] ! b) = allData (xs ! b)"
  by (cases "a < length xs") (auto simp: nth_list_update list_update_beyond)

lemma allIndexes_update:
  "allIndexes t = allIndexes (xs ! a) \<Longrightarrow> allIndexes (xs[a := t] ! b) = allIndexes (xs ! b)"
  by (cases "a < length xs") (auto simp: nth_list_update list_update_beyond)

lemma tableFields_update:
  "tableFields t = tableFields (xs ! a) \<Longrightarrow> tableFields (xs[a := t] ! b) = tableFields (xs ! b)"
  by (cases "a < length xs") (auto simp: nth_list_update list_update_beyond)

lemma allData_filterTable [simp]:
  "allData (objs (fst (filterTable ext st this filters layers opt)) ! a) = allData (objs st ! a)"
  by (simp add: filterTable_def Let_def allData_update)

lemma allIndexes_filterTable [simp]:
  "allIndexes (objs (fst (filterTable ext st this filters layers opt)) ! a) =
   allIndexes (objs st ! a)"
  by (simp add: filterTable_def Let_def allIndexes_update)

lemma tableFields_filterTable [simp]:
  "tableFields (objs (fst (filterTable ext st this filters layers opt)) ! a) =
   tableFields (objs st ! a)"
  by (simp add: filterTable_def Let_def tableFields_update)

lemma other_filterTable:
  "a \<noteq> this \<Longrightarrow> objs (fst (filterTable ext st this filters layers opt)) ! a = objs st ! a"
  by (simp add: filterTable_def Let_def)

lemma tablesOk_filterTable:
  "tablesOk st \<Longrightarrow> tablesOk (fst (filterTable ext st this filters layers opt))"
  by (simp add: tablesOk_def list_all_length tableOk_def)

lemma length_objs_filterTableCPU:
  "length (objs (fst (filterTableCPU ext st this filters layers))) =
     (if filters \<noteq> [] \<and> find gpu filters \<noteq> None then Suc (length (objs st))
      else length (objs st))"
  by (simp add: filterTableCPU_def Let_def copyTable_def alloc_def case_prod_beta)

lemma tablesOk_filterTableCPU:
  assumes "tablesOk st" "this < length (objs st)"
  shows "tablesOk (fst (filterTableCPU ext st this filters layers))"
proof -
  have ok: "tableOk (objs st ! this)" using assms by (rule tablesOk_nth)
  show ?thesis
  proof (cases "filters \<noteq> [] \<and> find gpu filters \<noteq> None")
    case False
    then show ?thesis using assms(1) ok
      by (auto simp: filterTableCPU_def Let_def tableOk_def intro!: tablesOk_setObj)
  next
    case True
    define st1 where "st1 = fst (copyTable st this)"
    have ok1: "tablesOk st1"
      unfolding st1_def copyTable_def using assms(1) ok by (rule tablesOk_alloc)
    define st2 where "st2 = setObj st1 (length (objs st))
       ((objs st1 ! length (objs st))\<lparr>filterRecord := filterRecordCPU (objs st1 ! this),
          filteredIndex := (case filteredIdxCPU (objs st1 ! this) of Some xs \<Rightarrow> xs | None \<Rightarrow> [])\<rparr>)"
    have "tableOk (objs st1 ! length (objs st))"
      using ok by (simp add: st1_def copyTable_def)
    then have ok2: "tablesOk st2"
      unfolding st2_def using ok1 by (intro tablesOk_setObj) (simp_all add: tableOk_def)
    define st3 where "st3 = fst (filterTable ext st2 (length (objs st)) filters layers
        (Some \<lparr>cpuOnly = True, ignoreDomain = True\<rparr>))"
    have ok3: "tablesOk st3" unfolding st3_def using ok2 by (rule tablesOk_filterTable)
    have len3: "this < length (objs st3)"
      using assms(2) by (simp add: st3_def st2_def st1_def copyTable_def)
    have eq: "fst (filterTableCPU ext st this filters layers) =
        setObj st3 this ((objs st3 ! this)
            \<lparr>filteredIdxCPU := Some (filteredIndex (objs st3 ! length (objs st))),
             filterRecordCPU := filterRecord (objs st3 ! length (objs st))\<rparr>)"
      using True
      by (auto simp: filterTableCPU_def Let_def st3_def st2_def st1_def copyTable_def alloc_def
          case_prod_beta)
    have "tableOk (objs st3 ! this)" using ok3 len3 by (rule tablesOk_nth)
    then show ?thesis unfolding eq using ok3
      by (intro tablesOk_setObj) (simp_all add: tableOk_def)
  qed
qed

lemma tablesOk_getColumnLayerDomain:
  "tablesOk st \<Longrightarrow> tablesOk (fst (getColumnLayerDomain ext st this fld scaleType))"
  by (simp add: getColumnLayerDomain_def Let_def)

lemma tablesOk_sortDatasetByColumn:
  assumes "tablesOk st" "dataset < length (objs st)"
    and "sortDatasetByColumn ext st dataset column mode = Inr (st', r)"
  shows "tablesOk st'"
proof -
  have ok: "tableOk (objs st ! dataset)" using assms(1,2) by (rule tablesOk_nth)
  have a: "\<And>sc so. tablesOk (fst (alloc st ((objs st ! dataset)\<lparr>sortColumn := sc, sortOrder := so\<rparr>)))"
    using assms(1) ok by (intro tablesOk_alloc) (simp_all add: tableOk_def)
  show ?thesis
    using assms(3) assms(1) a
    by (auto simp: sortDatasetByColumn_def Let_def alloc_def split: if_splits)
qed

lemma reachable_tablesOk: "reachable ext st \<Longrightarrow> tablesOk st"
proof (induction rule: reachable.induct)
  case r_init
  show ?case by (simp add: tablesOk_def)
next
  case (r_new st info data c m)
  then show ?case by (simp add: tablesOk_KeplerTable)
next
  case (r_getColumnField st this columnName)
  then show ?case by (simp add: tablesOk_getColumnField)
next
  case (r_getColumnFieldIdx st this columnName)
  then show ?case by (simp add: tablesOk_getColumnFieldIdx)
next
  case (r_getValue st this columnName rowIdx)
  then show ?case by (simp add: tablesOk_getValue)
next
  case (r_updateColumnField st this i newField st')
  then show ?case by (blast intro: tablesOk_updateColumnField)
next
  case (r_filterTable st this filters layers opt)
  then show ?case by (simp add: tablesOk_filterTable)
next
  case (r_filterTableCPU st this filters layers)
  then show ?case by (simp add: tablesOk_filterTableCPU)
next
  case (r_getColumnLayerDomain st this fld scaleType)
  then show ?case by (simp add: tablesOk_getColumnLayerDomain)
next
  case (r_sortDatasetByColumn st dataset column mode st' r)
  then show ?case by (blast intro: tablesOk_sortDatasetByColumn)
qed

lemma allData_filterTables:
  "allData (objs (filterTables ext st calls) ! a) = allData (objs st ! a)"
  unfolding filterTables_def
  by (induction calls arbitrary: st) (simp_all add: case_prod_beta)

lemma find_None_names: "x \<notin> set (map name flds) \<Longrightarrow> find (\<lambda>fd. name fd = x) flds = None"
  by (auto simp: find_None_iff)

lemma findIndex_negative: "(findIndex p xs < 0) = (\<forall>x \<in> set xs. \<not> p x)"
  using findIndex_found [of p xs] by auto

lemma find_gpu_Some: "list_ex gpu filters \<Longrightarrow> filters \<noteq> [] \<and> find gpu filters \<noteq> None"
  by (auto simp: list_ex_iff find_None_iff)

lemma findPointFieldPairs_concat:
  "findPointFieldPairs tpf flds = concat (map (firstMatchOfField tpf flds) [0..<length flds])"
proof -
  let ?names = "map (\<lambda>f. toLowerCase (name f)) flds"
  have "findPointFieldPairs tpf flds =
      concat (map (reduceStep tpf flds ?names []) (zip ?names [0..<length ?names]))"
    by (simp add: findPointFieldPairs_def Let_def foldl_reduceStep)
  also have "map (reduceStep tpf flds ?names []) (zip ?names [0..<length ?names]) =
      map (\<lambda>i. reduceStep tpf flds ?names [] (?names ! i, i)) [0..<length ?names]"
    by (rule map_zip_upt)
  also have "\<dots> = map (firstMatchOfField tpf flds) [0..<length flds]"
    by (rule map_cong) (simp_all add: reduceStep_firstMatch del: nth_map)
  finally show ?thesis .
qed

text \<open>What \<open>filterTableCPU\<close> returns when a filter has the \<open>gpu\<close> flag.\<close>

lemma filterTableCPU_gpu:
  assumes "this < length (objs st)" and "list_ex gpu filters"
  shows "filterTableCPU ext st this filters layers =
     (setObj (cpuCopy ext st this filters layers) this
        ((objs st ! this)
           \<lparr>filteredIdxCPU :=
              Some (filteredIndex (objs (cpuCopy ext st this filters layers) ! length (objs st))),
            filterRecordCPU :=
              filterRecord (objs (cpuCopy ext st this filters layers) ! length (objs st))\<rparr>),
      length (objs st))"
proof -
  have g: "filters \<noteq> []" "find gpu filters \<noteq> None"
    using find_gpu_Some [OF assms(2)] by simp_all
  have same: "objs (cpuCopy ext st this filters layers) ! this = objs st ! this"
    using assms(1) by (simp add: cpuCopy_def other_filterTable nth_append)
  have c: "setObj (st\<lparr>objs := objs st @ [objs st ! this]\<rparr>) (length (objs st))
             ((objs st ! this)
                \<lparr>filterRecord := filterRecordCPU (objs st ! this),
                 filteredIndex := (case filteredIdxCPU (objs st ! this) of
                                     Some xs \<Rightarrow> xs | None \<Rightarrow> [])\<rparr>) =
           fst (alloc st ((objs st ! this)
                    \<lparr>filterRecord := filterRecordCPU (objs st ! this),
                     filteredIndex := (case filteredIdxCPU (objs st ! this) of
                                         Some xs \<Rightarrow> xs | None \<Rightarrow> [])\<rparr>))"
    by (simp add: setObj_def alloc_def)
  have "filterTableCPU ext st this filters layers =
     (setObj (cpuCopy ext st this filters layers) this
        ((objs (cpuCopy ext st this filters layers) ! this)
           \<lparr>filteredIdxCPU :=
              Some (filteredIndex (objs (cpuCopy ext st this filters layers) ! length (objs st))),
            filterRecordCPU :=
              filterRecord (objs (cpuCopy ext st this filters layers) ! length (objs st))\<rparr>),
      length (objs st))"
    using g assms(1) unfolding cpuCopy_def c [symmetric]
    by (auto simp: filterTableCPU_def Let_def copyTable_def alloc_def case_prod_beta nth_append)
  then show ?thesis by (simp only: same)
qed

text \<open>
  What a second call of \<open>filterTable\<close> with the same non-empty filters does, for any
  collaborators whose \<open>diffFilters\<close> reports no change between a filter record and
  itself: \<open>filterResult\<close> is empty, the first assignment copies
  \<open>filteredIndexForDomain\<close> into \<open>filteredIndex\<close>, and the second assignment copies it
  back.
\<close>

lemma filterTable_unchanged_filters:
  assumes "this < length (objs st)" and "filters \<noteq> []"
    and "fr = getFilterRecord ext (id_table (objs st ! this)) filters
                (case opt of None \<Rightarrow> \<lparr>cpuOnly = False, ignoreDomain = False\<rparr> | Some opt0 \<Rightarrow> opt0)"
    and "diffFilters ext fr (Some fr) = \<lparr>changed_dynamicDomain = False, changed_cpu = False\<rparr>"
    and "st1 = fst (filterTable ext st this filters layers opt)"
    and "st2 = fst (filterTable ext st1 this filters layers opt)"
  shows "filteredIndex (objs st2 ! this) = filteredIndexForDomain (objs st1 ! this) \<and>
         filteredIndexForDomain (objs st2 ! this) = filteredIndexForDomain (objs st1 ! this)"
proof -
  have len1: "this < length (objs st1)" using assms(1,5) by simp
  have id1: "id_table (objs st1 ! this) = id_table (objs st ! this)"
    using assms(1,2) unfolding assms(5) by (simp add: filterTable_def Let_def)
  have fr1: "filterRecord (objs st1 ! this) = Some fr"
    using assms(1,2) unfolding assms(3,5) by (simp add: filterTable_def Let_def)
  show ?thesis
    unfolding assms(6) using len1 assms(2) assms(4) id1 fr1 assms(3)
    by (simp add: filterTable_def [of ext st1] Let_def)
qed

text \<open>The modelled \<open>diffFilters\<close> reports no change between a record and itself.\<close>

lemma spec_diffFilters_same:
  "spec_diffFilters r (Some r) = \<lparr>changed_dynamicDomain = False, changed_cpu = False\<rparr>"
  by (simp add: spec_diffFilters_def)

lemma reachable_demoState: "reachable specExt demoState"
  unfolding demoState_def by (rule r_new [OF r_init])

lemma length_demoState: "0 < length (objs demoState)"
  by code_simp

lemma reachable_demoFiltered: "reachable specExt demoFiltered"
  unfolding demoFiltered_def
  by (rule r_filterTable [OF reachable_demoState length_demoState])


section \<open>The properties of the specification\<close>

subsection \<open>C1: filterTable without filters\<close>

text \<open>
  C1. For every table of a reachable store, and every \<open>layers\<close> and \<open>opt\<close>, \<open>filterTable\<close>
  with the empty filter list returns the table itself and sets \<open>filteredIndex\<close> and
  \<open>filteredIndexForDomain\<close> to \<open>allIndexes\<close>, which is the ascending sequence of the
  row indices from 0 and as long as \<open>allData\<close>. No row is scanned: the result is the
  same whatever \<open>filterDataByFilterTypes\<close>, \<open>diffFilters\<close> and \<open>getFilterFunction\<close> are.
\<close>

theorem filterTable_no_filters:
  assumes "reachable ext st" and "this < length (objs st)"
  shows "snd (filterTable ext st this [] layers opt) = this \<and>
         filteredIndex (objs (fst (filterTable ext st this [] layers opt)) ! this) =
           allIndexes (objs st ! this) \<and>
         filteredIndexForDomain (objs (fst (filterTable ext st this [] layers opt)) ! this) =
           allIndexes (objs st ! this) \<and>
         allIndexes (objs (fst (filterTable ext st this [] layers opt)) ! this) =
           allIndexes (objs st ! this) \<and>
         allIndexes (objs st ! this) = [0..<length (allData (objs st ! this))] \<and>
         length (allIndexes (objs st ! this)) = length (allData (objs st ! this)) \<and>
         filterTable (ext\<lparr>filterDataByFilterTypes := scan, diffFilters := diff,
                          getFilterFunction := func\<rparr>) st this [] layers opt =
           filterTable ext st this [] layers opt"
proof -
  have "tableOk (objs st ! this)"
    using assms by (intro tablesOk_nth reachable_tablesOk)
  then have ok: "allIndexes (objs st ! this) = [0..<length (allData (objs st ! this))]"
    by (simp add: tableOk_def)
  have idx: "filteredIndex (objs (fst (filterTable ext st this [] layers opt)) ! this) =
           allIndexes (objs st ! this) \<and>
         filteredIndexForDomain (objs (fst (filterTable ext st this [] layers opt)) ! this) =
           allIndexes (objs st ! this)"
    using assms(2) by (simp add: filterTable_def Let_def)
  have indep: "filterTable (ext\<lparr>filterDataByFilterTypes := scan, diffFilters := diff,
                          getFilterFunction := func\<rparr>) st this [] layers opt =
           filterTable ext st this [] layers opt"
    by (simp add: filterTable_def Let_def)
  show ?thesis using ok idx indep by simp
qed

text \<open>The table has been filtered to two different index sequences; the call without
  filters sets both back to all three rows.\<close>

theorem filterTable_no_filters_witness:
  "reachable specExt demoFiltered \<and> 0 < length (objs demoFiltered) \<and>
   filteredIndex (objs demoFiltered ! 0) = [0, 1, 2] \<and>
   filteredIndexForDomain (objs demoFiltered ! 0) = [0, 1] \<and>
   snd (filterTable specExt demoFiltered 0 [] () None) = 0 \<and>
   filteredIndex (objs (fst (filterTable specExt demoFiltered 0 [] () None)) ! 0) = [0, 1, 2] \<and>
   filteredIndexForDomain (objs (fst (filterTable specExt demoFiltered 0 [] () None)) ! 0) =
     [0, 1, 2]"
proof -
  have l: "0 < length (objs demoFiltered)" by code_simp
  have before: "filteredIndex (objs demoFiltered ! 0) = [0, 1, 2] \<and>
      filteredIndexForDomain (objs demoFiltered ! 0) = [0, 1]"
    by code_simp
  have rows: "length (allData (objs demoFiltered ! 0)) = 3" by code_simp
  have upt: "[0..<3] = [0, 1, 2]" by code_simp
  show ?thesis
    using filterTable_no_filters [OF reachable_demoFiltered l, of "()" None]
      reachable_demoFiltered l before rows upt
    by simp
qed

subsection \<open>C2: filterTable twice with the same filters\<close>

text \<open>
  C2. The claim is that a second call of \<open>filterTable\<close> with the same filters leaves
  \<open>filteredIndex\<close> and \<open>filteredIndexForDomain\<close> as the first call left them. The code
  assigns \<open>filterResult.filteredIndexForDomain || this.filteredIndexForDomain\<close> to
  \<open>this.filteredIndex\<close> and \<open>filterResult.filteredIndex || this.filteredIndex\<close> to
  \<open>this.filteredIndexForDomain\<close>, the two results crossed over. On the table with the
  cells 1, 2, 3 and one CPU filter with a fixed domain that keeps 1 and 2, the first
  call leaves \<open>filteredIndex\<close> at all three rows and \<open>filteredIndexForDomain\<close> at the rows
  0 and 1; the second call, with the same filter, changes \<open>filteredIndex\<close> to the rows 0
  and 1.
\<close>

theorem filterTable_repeated_differs:
  "filteredIndex (objs (fst (filterTable specExt demoState 0 [demoFilter] () None)) ! 0) =
     [0, 1, 2] \<and>
   filteredIndexForDomain (objs (fst (filterTable specExt demoState 0 [demoFilter] () None)) ! 0) =
     [0, 1] \<and>
   filteredIndex (objs (fst (filterTable specExt
       (fst (filterTable specExt demoState 0 [demoFilter] () None)) 0 [demoFilter] () None)) ! 0) =
     [0, 1] \<and>
   filteredIndexForDomain (objs (fst (filterTable specExt
       (fst (filterTable specExt demoState 0 [demoFilter] () None)) 0 [demoFilter] () None)) ! 0) =
     [0, 1]"
  by code_simp

subsection \<open>C3: the ordinal domain does not depend on the filters\<close>

text \<open>
  C3. For every table, field and sequence of \<open>filterTable\<close> calls (on this table or on
  others), \<open>getColumnLayerDomain\<close> for the scale types \<open>ordinal\<close> and \<open>point\<close> returns
  \<open>getOrdinalDomain\<close> of all the rows and the field's accessor, after the calls as
  before them.
\<close>

theorem ordinal_domain_unfiltered:
  "snd (getColumnLayerDomain ext (filterTables ext st calls) this fld ''ordinal'') =
     Some (getOrdinalDomain ext (allData (objs st ! this)) (valueAccessor fld)) \<and>
   snd (getColumnLayerDomain ext (filterTables ext st calls) this fld ''point'') =
     Some (getOrdinalDomain ext (allData (objs st ! this)) (valueAccessor fld)) \<and>
   snd (getColumnLayerDomain ext (filterTables ext st calls) this fld ''ordinal'') =
     snd (getColumnLayerDomain ext st this fld ''ordinal'') \<and>
   snd (getColumnLayerDomain ext (filterTables ext st calls) this fld ''point'') =
     snd (getColumnLayerDomain ext st this fld ''point'')"
  by (simp add: getColumnLayerDomain_def Let_def SCALE_TYPES_def allData_filterTables)

text \<open>The table of \<open>ordinalState\<close> is filtered to the rows 1 and 3; the ordinal domain
  of its column is 1, 2, 3 before and after.\<close>

theorem ordinal_domain_unfiltered_witness:
  "filteredIndexForDomain
     (objs (filterTables specExt ordinalState [(0, [gpuFilterDemo], (), None)]) ! 0) = [1, 3] \<and>
   snd (getColumnLayerDomain specExt ordinalState 0
          (tableFields (objs ordinalState ! 0) ! 0) ''ordinal'') =
     Some [Some 1, Some 2, Some 3] \<and>
   snd (getColumnLayerDomain specExt
          (filterTables specExt ordinalState [(0, [gpuFilterDemo], (), None)]) 0
          (tableFields (objs ordinalState ! 0) ! 0) ''ordinal'') =
     Some [Some 1, Some 2, Some 3]"
proof -
  have f: "filteredIndexForDomain
     (objs (filterTables specExt ordinalState [(0, [gpuFilterDemo], (), None)]) ! 0) = [1, 3]"
    by code_simp
  have d: "snd (getColumnLayerDomain specExt ordinalState 0
          (tableFields (objs ordinalState ! 0) ! 0) ''ordinal'') =
     Some [Some 1, Some 2, Some 3]"
    by code_simp
  have same: "snd (getColumnLayerDomain specExt
          (filterTables specExt ordinalState [(0, [gpuFilterDemo], (), None)]) 0
          (tableFields (objs ordinalState ! 0) ! 0) ''ordinal'') =
      snd (getColumnLayerDomain specExt ordinalState 0
          (tableFields (objs ordinalState ! 0) ! 0) ''ordinal'')"
    using ordinal_domain_unfiltered [of specExt ordinalState "[(0, [gpuFilterDemo], (), None)]" 0
        "tableFields (objs ordinalState ! 0) ! 0"]
    by blast
  show ?thesis
    using f d same by simp
qed

subsection \<open>C4: findPointFieldPairs\<close>

text \<open>
  C4. On the fields pickup_lat, pickup_lng, dropoff_lat, dropoff_lng and name,
  \<open>findPointFieldPairs\<close> returns two pairs: \<open>pickup\<close> with the fields 0 and 1 and
  \<open>dropoff\<close> with the fields 2 and 3; the field \<open>name\<close> (index 4) is in no pair. For
  every list of plain suffix pairs and all fields, the result is, field by field, the
  entry of the first suffix pair of the list that matches the field (its first suffix
  ends the name and the partner name exists), or no entry: a later pair adds nothing
  for a field that an earlier pair has matched.
\<close>

theorem findPointFieldPairs_first_match:
  assumes "list_all (\<lambda>p. plainText (fst p) \<and> plainText (snd p)) tpf"
  shows "findPointFieldPairs TRIP_POINT_FIELDS exampleFields =
           [\<lparr>defaultName = ''pickup'',
             pair = \<lparr>lat = \<lparr>pointFieldIdx = 0, pointValue = ''pickup_lat''\<rparr>,
                     lng = \<lparr>pointFieldIdx = 1, pointValue = ''pickup_lng''\<rparr>\<rparr>,
             suffix = (''lat'', ''lng'')\<rparr>,
            \<lparr>defaultName = ''dropoff'',
             pair = \<lparr>lat = \<lparr>pointFieldIdx = 2, pointValue = ''dropoff_lat''\<rparr>,
                     lng = \<lparr>pointFieldIdx = 3, pointValue = ''dropoff_lng''\<rparr>\<rparr>,
             suffix = (''lat'', ''lng'')\<rparr>]
       \<and> findPointFieldPairs tpf flds =
           concat (map (firstMatchOfField tpf flds) [0..<length flds])"
proof
  show "findPointFieldPairs TRIP_POINT_FIELDS exampleFields =
           [\<lparr>defaultName = ''pickup'',
             pair = \<lparr>lat = \<lparr>pointFieldIdx = 0, pointValue = ''pickup_lat''\<rparr>,
                     lng = \<lparr>pointFieldIdx = 1, pointValue = ''pickup_lng''\<rparr>\<rparr>,
             suffix = (''lat'', ''lng'')\<rparr>,
            \<lparr>defaultName = ''dropoff'',
             pair = \<lparr>lat = \<lparr>pointFieldIdx = 2, pointValue = ''dropoff_lat''\<rparr>,
                     lng = \<lparr>pointFieldIdx = 3, pointValue = ''dropoff_lng''\<rparr>\<rparr>,
             suffix = (''lat'', ''lng'')\<rparr>]"
    by code_simp
  show "findPointFieldPairs tpf flds =
           concat (map (firstMatchOfField tpf flds) [0..<length flds])"
    by (rule findPointFieldPairs_concat)
qed

text \<open>
  \<open>Start_Lat\<close> ends with the first suffix of the first pair, but there is no
  \<open>start_lng\<close>: the loop goes on, and the second pair, the first one that matches,
  gives the entry. The field \<open>lat\<close> has no partner under any pair.
\<close>

theorem findPointFieldPairs_first_match_witness:
  "list_all (\<lambda>p. plainText (fst p) \<and> plainText (snd p)) TRIP_POINT_FIELDS \<and>
   findPointFieldPairs TRIP_POINT_FIELDS lonFields =
     concat (map (firstMatchOfField TRIP_POINT_FIELDS lonFields) [0..<length lonFields]) \<and>
   findPointFieldPairs TRIP_POINT_FIELDS lonFields =
     [\<lparr>defaultName = ''start'',
       pair = \<lparr>lat = \<lparr>pointFieldIdx = 0, pointValue = ''Start_Lat''\<rparr>,
               lng = \<lparr>pointFieldIdx = 1, pointValue = ''start_lon''\<rparr>\<rparr>,
       suffix = (''lat'', ''lon'')\<rparr>]"
proof -
  have h: "list_all (\<lambda>p. plainText (fst p) \<and> plainText (snd p)) TRIP_POINT_FIELDS"
    by code_simp
  have e: "findPointFieldPairs TRIP_POINT_FIELDS lonFields =
     [\<lparr>defaultName = ''start'',
       pair = \<lparr>lat = \<lparr>pointFieldIdx = 0, pointValue = ''Start_Lat''\<rparr>,
               lng = \<lparr>pointFieldIdx = 1, pointValue = ''start_lon''\<rparr>\<rparr>,
       suffix = (''lat'', ''lon'')\<rparr>]"
    by code_simp
  show ?thesis
    using h e findPointFieldPairs_first_match [OF h, of lonFields] by simp
qed

text \<open>With the one suffix pair \<open>_lat\<close>, \<open>_lng\<close>, the style the spec gives as its
  example, the fields of the claim are paired in the same way.\<close>

lemma findPointFieldPairs_underscore_suffixes:
  "map (\<lambda>e. (defaultName e, pointFieldIdx (lat (pair e)), pointFieldIdx (lng (pair e))))
     (findPointFieldPairs [(''_lat'', ''_lng'')] exampleFields) =
   [(''pickup'', 0, 1), (''dropoff'', 2, 3)]"
  by code_simp

subsection \<open>C5: removeSuffixAndDelimiters\<close>

text \<open>
  C5. \<open>removeSuffixAndDelimiters('trip.pickup_lat', '_lat')\<close> is \<open>trip pickup\<close>. For
  every name and every plain suffix the result is the name with the suffix removed,
  the delimiters replaced and the ends trimmed:
  \<^item> an occurrence of the suffix, in upper or lower case and anywhere in the name, is
    deleted, what has no occurrence is kept as it is, and the empty suffix deletes
    nothing;
  \<^item> characters that are not delimiters are kept, and a maximal run of underscores,
    commas and periods becomes one space;
  \<^item> white space is taken from both ends and from nowhere else;
  \<^item> so the result holds no underscore, comma or period, and neither begins nor ends
    with white space;
  \<^item> and a name made of white space, a word, a run of delimiters, a second word, the
    suffix in any case and white space, with no other occurrence of the suffix, gives
    the two words with one space between them.
\<close>

theorem removeSuffixAndDelimiters_trip_pickup:
  assumes "plainText sfx"
  shows
    "removeSuffixAndDelimiters ''trip.pickup_lat'' ''_lat'' = ''trip pickup'' \<and>
     removeSuffixAndDelimiters layerName sfx =
       trim (replaceDelimiters (removeAllCI sfx layerName)) \<and>
     removeAllCI [] layerName = layerName \<and>
     (sfx \<noteq> [] \<and> toLowerCase m = toLowerCase sfx \<and>
      list_all (\<lambda>i. \<not> matchesAtCI sfx (drop i (a @ m @ b))) [0..<length a] \<longrightarrow>
        removeAllCI sfx (a @ m @ b) = a @ removeAllCI sfx b) \<and>
     (list_all (\<lambda>i. \<not> matchesAtCI sfx (drop i s)) [0..<length s] \<longrightarrow> removeAllCI sfx s = s) \<and>
     (list_all (\<lambda>c. \<not> isDelimiter c) a \<longrightarrow> replaceDelimiters (a @ b) = a @ replaceDelimiters b) \<and>
     (ds \<noteq> [] \<and> list_all isDelimiter ds \<and> (b = [] \<or> \<not> isDelimiter (hd b)) \<longrightarrow>
        replaceDelimiters (ds @ b) = CHR '' '' # replaceDelimiters b) \<and>
     (list_all isWhiteSpace lead \<and> list_all isWhiteSpace trail \<and>
      (core = [] \<or> (\<not> isWhiteSpace (hd core) \<and> \<not> isWhiteSpace (last core))) \<longrightarrow>
        trim (lead @ core @ trail) = core) \<and>
     list_all (\<lambda>c. \<not> isDelimiter c) (removeSuffixAndDelimiters layerName sfx) \<and>
     (removeSuffixAndDelimiters layerName sfx \<noteq> [] \<longrightarrow>
        \<not> isWhiteSpace (hd (removeSuffixAndDelimiters layerName sfx)) \<and>
        \<not> isWhiteSpace (last (removeSuffixAndDelimiters layerName sfx))) \<and>
     (sfx \<noteq> [] \<and> toLowerCase m = toLowerCase sfx \<and>
      list_all isWhiteSpace lead \<and> list_all isWhiteSpace trail \<and>
      wordA \<noteq> [] \<and> list_all (\<lambda>c. \<not> isDelimiter c) wordA \<and> \<not> isWhiteSpace (hd wordA) \<and>
      wordB \<noteq> [] \<and> list_all (\<lambda>c. \<not> isDelimiter c) wordB \<and> \<not> isWhiteSpace (last wordB) \<and>
      ds \<noteq> [] \<and> list_all isDelimiter ds \<and>
      list_all (\<lambda>i. \<not> matchesAtCI sfx (drop i ((lead @ wordA @ ds @ wordB) @ m @ trail)))
        [0..<length (lead @ wordA @ ds @ wordB)] \<and>
      list_all (\<lambda>i. \<not> matchesAtCI sfx (drop i trail)) [0..<length trail] \<longrightarrow>
        removeSuffixAndDelimiters ((lead @ wordA @ ds @ wordB) @ m @ trail) sfx = wordA @ CHR '' '' # wordB)"
proof (intro conjI impI)
  show "removeSuffixAndDelimiters ''trip.pickup_lat'' ''_lat'' = ''trip pickup''"
    by code_simp
  show "removeSuffixAndDelimiters layerName sfx =
       trim (replaceDelimiters (removeAllCI sfx layerName))"
    by (rule removeSuffixAndDelimiters_def)
  show "removeAllCI [] layerName = layerName"
    by (rule removeAllCI_empty)
  show "list_all (\<lambda>c. \<not> isDelimiter c) (removeSuffixAndDelimiters layerName sfx)"
    by (rule removeSuffixAndDelimiters_no_delimiter)
next
  assume "sfx \<noteq> [] \<and> toLowerCase m = toLowerCase sfx \<and>
      list_all (\<lambda>i. \<not> matchesAtCI sfx (drop i (a @ m @ b))) [0..<length a]"
  then show "removeAllCI sfx (a @ m @ b) = a @ removeAllCI sfx b"
    by (intro removeAllCI_middle) simp_all
next
  assume "list_all (\<lambda>i. \<not> matchesAtCI sfx (drop i s)) [0..<length s]"
  then show "removeAllCI sfx s = s" by (rule removeAllCI_none)
next
  assume "list_all (\<lambda>c. \<not> isDelimiter c) a"
  then show "replaceDelimiters (a @ b) = a @ replaceDelimiters b"
    by (rule replaceDelimiters_keeps)
next
  assume "ds \<noteq> [] \<and> list_all isDelimiter ds \<and> (b = [] \<or> \<not> isDelimiter (hd b))"
  then show "replaceDelimiters (ds @ b) = CHR '' '' # replaceDelimiters b"
    by (intro replaceDelimiters_run) simp_all
next
  assume "list_all isWhiteSpace lead \<and> list_all isWhiteSpace trail \<and>
      (core = [] \<or> (\<not> isWhiteSpace (hd core) \<and> \<not> isWhiteSpace (last core)))"
  then show "trim (lead @ core @ trail) = core"
    by (intro trim_core) simp_all
next
  assume "removeSuffixAndDelimiters layerName sfx \<noteq> []"
  then show "\<not> isWhiteSpace (hd (removeSuffixAndDelimiters layerName sfx))"
    and "\<not> isWhiteSpace (last (removeSuffixAndDelimiters layerName sfx))"
    using removeSuffixAndDelimiters_trimmed by blast+
next
  assume "sfx \<noteq> [] \<and> toLowerCase m = toLowerCase sfx \<and>
      list_all isWhiteSpace lead \<and> list_all isWhiteSpace trail \<and>
      wordA \<noteq> [] \<and> list_all (\<lambda>c. \<not> isDelimiter c) wordA \<and> \<not> isWhiteSpace (hd wordA) \<and>
      wordB \<noteq> [] \<and> list_all (\<lambda>c. \<not> isDelimiter c) wordB \<and> \<not> isWhiteSpace (last wordB) \<and>
      ds \<noteq> [] \<and> list_all isDelimiter ds \<and>
      list_all (\<lambda>i. \<not> matchesAtCI sfx (drop i ((lead @ wordA @ ds @ wordB) @ m @ trail)))
        [0..<length (lead @ wordA @ ds @ wordB)] \<and>
      list_all (\<lambda>i. \<not> matchesAtCI sfx (drop i trail)) [0..<length trail]"
  then show "removeSuffixAndDelimiters ((lead @ wordA @ ds @ wordB) @ m @ trail) sfx = wordA @ CHR '' '' # wordB"
    by (intro removeSuffixAndDelimiters_words) simp_all
qed

text \<open>A name with white space at both ends, a run of three different delimiters and
  the suffix in upper case; and a name with three runs and no suffix.\<close>

theorem removeSuffixAndDelimiters_trip_pickup_witness:
  "plainText ''_lat'' \<and>
   removeSuffixAndDelimiters '' Trip_.,Pickup_LAT  '' ''_lat'' = ''Trip Pickup'' \<and>
   removeAllCI ''_lat'' '' Trip_.,Pickup_LAT  '' = '' Trip_.,Pickup  '' \<and>
   replaceDelimiters ''_.,Pickup  '' = '' Pickup  '' \<and>
   trim '' Trip Pickup  '' = ''Trip Pickup'' \<and>
   removeSuffixAndDelimiters ''  a__b,,c.. '' ''_lat'' = ''a b c''"
proof -
  have h: "plainText ''_lat''" by code_simp
  note T = removeSuffixAndDelimiters_trip_pickup [OF h,
      where m = "''_LAT''" and lead = "'' ''" and wordA = "''Trip''" and ds = "''_.,''"
        and wordB = "''Pickup''" and trail = "''  ''" and a = "'' Trip_.,Pickup''" and b = "''  ''"
        and s = "''  ''" and core = "''Trip Pickup''"]
  note U = removeSuffixAndDelimiters_trip_pickup [OF h,
      where ds = "''_.,''" and b = "''Pickup  ''"]
  have words: "''_lat'' \<noteq> [] \<and> toLowerCase ''_LAT'' = toLowerCase ''_lat'' \<and>
      list_all isWhiteSpace '' '' \<and> list_all isWhiteSpace ''  '' \<and>
      ''Trip'' \<noteq> [] \<and> list_all (\<lambda>c. \<not> isDelimiter c) ''Trip'' \<and> \<not> isWhiteSpace (hd ''Trip'') \<and>
      ''Pickup'' \<noteq> [] \<and> list_all (\<lambda>c. \<not> isDelimiter c) ''Pickup'' \<and>
      \<not> isWhiteSpace (last ''Pickup'') \<and>
      ''_.,'' \<noteq> [] \<and> list_all isDelimiter ''_.,'' \<and>
      list_all (\<lambda>i. \<not> matchesAtCI ''_lat''
                  (drop i (('' '' @ ''Trip'' @ ''_.,'' @ ''Pickup'') @ ''_LAT'' @ ''  '')))
        [0..<length ('' '' @ ''Trip'' @ ''_.,'' @ ''Pickup'')] \<and>
      list_all (\<lambda>i. \<not> matchesAtCI ''_lat'' (drop i ''  '')) [0..<length ''  '']"
    by code_simp
  have whole: "removeSuffixAndDelimiters (('' '' @ ''Trip'' @ ''_.,'' @ ''Pickup'') @ ''_LAT'' @ ''  '')
      ''_lat'' = ''Trip'' @ CHR '' '' # ''Pickup''"
    using T words by blast
  have mid: "''_lat'' \<noteq> [] \<and> toLowerCase ''_LAT'' = toLowerCase ''_lat'' \<and>
      list_all (\<lambda>i. \<not> matchesAtCI ''_lat'' (drop i ('' Trip_.,Pickup'' @ ''_LAT'' @ ''  '')))
        [0..<length '' Trip_.,Pickup'']"
    by code_simp
  have none: "list_all (\<lambda>i. \<not> matchesAtCI ''_lat'' (drop i ''  '')) [0..<length ''  '']"
    by code_simp
  have removed: "removeAllCI ''_lat'' ('' Trip_.,Pickup'' @ ''_LAT'' @ ''  '') =
      '' Trip_.,Pickup'' @ ''  ''"
    using T mid none by metis
  have run: "''_.,'' \<noteq> [] \<and> list_all isDelimiter ''_.,'' \<and>
      (''Pickup  '' = [] \<or> \<not> isDelimiter (hd ''Pickup  ''))"
    by code_simp
  have keeps: "list_all (\<lambda>c. \<not> isDelimiter c) ''Pickup  ''" by code_simp
  have "replaceDelimiters (''_.,'' @ ''Pickup  '') = CHR '' '' # replaceDelimiters ''Pickup  ''"
    using U run by blast
  moreover have "replaceDelimiters (''Pickup  '' @ []) = ''Pickup  '' @ replaceDelimiters []"
    using removeSuffixAndDelimiters_trip_pickup [OF h, where a = "''Pickup  ''" and b = "[]"] keeps
    by blast
  ultimately have delims: "replaceDelimiters ''_.,Pickup  '' = '' Pickup  ''" by simp
  have tr: "list_all isWhiteSpace '' '' \<and> list_all isWhiteSpace ''  '' \<and>
      (''Trip Pickup'' = [] \<or>
       (\<not> isWhiteSpace (hd ''Trip Pickup'') \<and> \<not> isWhiteSpace (last ''Trip Pickup'')))"
    by code_simp
  have trimmed: "trim ('' '' @ ''Trip Pickup'' @ ''  '') = ''Trip Pickup''"
    using T tr by blast
  have abc: "removeSuffixAndDelimiters ''  a__b,,c.. '' ''_lat'' = ''a b c''" by code_simp
  show ?thesis
    using h whole removed delims trimmed abc by simp
qed

subsection \<open>C6: sortDatasetByColumn with mode UNSORT\<close>

text \<open>
  C6. For every dataset of the store whose fields contain the column, whatever its
  \<open>sortColumn\<close> and \<open>sortOrder\<close> are, \<open>sortDatasetByColumn\<close> with the mode \<open>UNSORT\<close> does
  not throw and returns a new object (a reference that was not in the store, so not the
  dataset): the dataset with \<open>sortColumn\<close> empty and \<open>sortOrder\<close> null. The store is
  the old one with the new object added; the dataset itself is as it was.
\<close>

theorem sortDatasetByColumn_unsort:
  assumes "dataset < length (objs st)"
    and "column \<in> set (map name (tableFields (objs st ! dataset)))"
  shows "\<exists>st' r.
           sortDatasetByColumn ext st dataset column ''UNSORT'' = Inr (st', r) \<and>
           r = length (objs st) \<and> r \<noteq> dataset \<and>
           objs st' = objs st @ [objs st' ! r] \<and>
           objs st' ! r = (objs st ! dataset)\<lparr>sortColumn := Some [], sortOrder := Null\<rparr> \<and>
           sortColumn (objs st' ! r) = Some [] \<and>
           sortOrder (objs st' ! r) = Null \<and>
           objs st' ! dataset = objs st ! dataset \<and>
           console st' = console st"
proof -
  have "\<not> findIndex (\<lambda>f. name f = column) (tableFields (objs st ! dataset)) < 0"
    using assms(2) by (auto simp: findIndex_negative)
  then have "sortDatasetByColumn ext st dataset column ''UNSORT'' =
      Inr (st\<lparr>objs := objs st @ [(objs st ! dataset)\<lparr>sortColumn := Some [], sortOrder := Null\<rparr>]\<rparr>,
           length (objs st))"
    by (simp add: sortDatasetByColumn_def Let_def SORT_ORDER_def alloc_def)
  then show ?thesis using assms(1) by (simp add: nth_append)
qed

text \<open>The dataset 1 is sorted in descending order; unsorting it makes the object 2,
  with the sort cleared, and leaves the dataset 1 sorted.\<close>

theorem sortDatasetByColumn_unsort_witness:
  "1 < length (objs demoSorted) \<and>
   ''v'' \<in> set (map name (tableFields (objs demoSorted ! 1))) \<and>
   sortColumn (objs demoSorted ! 1) = Some [(''v'', Some ''DESCENDING'')] \<and>
   sortOrder (objs demoSorted ! 1) = Defined [2, 1, 0] \<and>
   (\<exists>st'. sortDatasetByColumn specExt demoSorted 1 ''v'' ''UNSORT'' = Inr (st', 2) \<and>
      sortColumn (objs st' ! 2) = Some [] \<and> sortOrder (objs st' ! 2) = Null \<and>
      objs st' ! 1 = objs demoSorted ! 1)"
proof -
  have l: "1 < length (objs demoSorted)" by code_simp
  have n: "length (objs demoSorted) = 2" by code_simp
  have h: "''v'' \<in> set (map name (tableFields (objs demoSorted ! 1)))" by code_simp
  have before: "sortColumn (objs demoSorted ! 1) = Some [(''v'', Some ''DESCENDING'')] \<and>
     sortOrder (objs demoSorted ! 1) = Defined [2, 1, 0]"
    by code_simp
  obtain st' r where
    r: "sortDatasetByColumn specExt demoSorted 1 ''v'' ''UNSORT'' = Inr (st', r)"
      "r = length (objs demoSorted)"
      "sortColumn (objs st' ! r) = Some []" "sortOrder (objs st' ! r) = Null"
      "objs st' ! 1 = objs demoSorted ! 1"
    using sortDatasetByColumn_unsort [OF l h, of specExt] by blast
  show ?thesis
    using r l n h before by simp
qed

subsection \<open>C7: filterTableCPU with a GPU filter\<close>

text \<open>
  C7. For every table of the store and every filter list with a filter whose \<open>gpu\<close>
  flag is set, \<open>filterTableCPU\<close> returns a new object, the copy of the table that it has
  filtered (\<open>cpuCopy\<close>), with the rows and the fields of the table. Of the table itself
  only \<open>filteredIdxCPU\<close> and \<open>filterRecordCPU\<close> change, to the \<open>filteredIndex\<close> and the
  \<open>filterRecord\<close> of the copy; \<open>filteredIndex\<close> and \<open>filteredIndexForDomain\<close> are as they
  were, and so are the other objects and the console.
\<close>

theorem filterTableCPU_frame:
  assumes "this < length (objs st)" and "list_ex gpu filters"
  shows "\<exists>st' copy.
     filterTableCPU ext st this filters layers = (st', copy) \<and>
     copy = length (objs st) \<and>
     length (objs st') = Suc (length (objs st)) \<and>
     objs st' ! copy = objs (cpuCopy ext st this filters layers) ! copy \<and>
     allData (objs st' ! copy) = allData (objs st ! this) \<and>
     tableFields (objs st' ! copy) = tableFields (objs st ! this) \<and>
     objs st' ! this =
       (objs st ! this)\<lparr>filteredIdxCPU := Some (filteredIndex (objs st' ! copy)),
                        filterRecordCPU := filterRecord (objs st' ! copy)\<rparr> \<and>
     filteredIndex (objs st' ! this) = filteredIndex (objs st ! this) \<and>
     filteredIndexForDomain (objs st' ! this) = filteredIndexForDomain (objs st ! this) \<and>
     (\<forall>a < length (objs st). a \<noteq> this \<longrightarrow> objs st' ! a = objs st ! a) \<and>
     console st' = console st"
proof -
  let ?c = "cpuCopy ext st this filters layers"
  have len: "length (objs ?c) = Suc (length (objs st))"
    by (simp add: cpuCopy_def)
  have con: "console ?c = console st"
    by (simp add: cpuCopy_def)
  have other: "\<And>a. a < length (objs st) \<Longrightarrow> objs ?c ! a = objs st ! a"
    by (simp add: cpuCopy_def other_filterTable nth_append)
  have ad: "allData (objs ?c ! length (objs st)) = allData (objs st ! this)"
    by (simp add: cpuCopy_def)
  have tf: "tableFields (objs ?c ! length (objs st)) = tableFields (objs st ! this)"
    by (simp add: cpuCopy_def)
  show ?thesis
    unfolding filterTableCPU_gpu [OF assms]
    using assms(1) len con other ad tf
    by (simp add: nth_list_update)
qed

text \<open>The table has been filtered to two different index sequences; filtering it on
  the CPU with a GPU filter returns the new object 1 and leaves both sequences.\<close>

theorem filterTableCPU_frame_witness:
  "0 < length (objs demoFiltered) \<and> list_ex gpu [gpuFilterDemo] \<and>
   filteredIndex (objs demoFiltered ! 0) = [0, 1, 2] \<and>
   filteredIndexForDomain (objs demoFiltered ! 0) = [0, 1] \<and>
   snd (filterTableCPU specExt demoFiltered 0 [gpuFilterDemo] ()) = 1 \<and>
   filteredIndex (objs (fst (filterTableCPU specExt demoFiltered 0 [gpuFilterDemo] ())) ! 0) =
     [0, 1, 2] \<and>
   filteredIndexForDomain
     (objs (fst (filterTableCPU specExt demoFiltered 0 [gpuFilterDemo] ())) ! 0) = [0, 1]"
proof -
  have l: "0 < length (objs demoFiltered)" by code_simp
  have n: "length (objs demoFiltered) = 1" by code_simp
  have g: "list_ex gpu [gpuFilterDemo]" by code_simp
  have before: "filteredIndex (objs demoFiltered ! 0) = [0, 1, 2] \<and>
      filteredIndexForDomain (objs demoFiltered ! 0) = [0, 1]"
    by code_simp
  obtain st' copy where
    r: "filterTableCPU specExt demoFiltered 0 [gpuFilterDemo] () = (st', copy)"
      "copy = length (objs demoFiltered)"
      "filteredIndex (objs st' ! 0) = filteredIndex (objs demoFiltered ! 0)"
      "filteredIndexForDomain (objs st' ! 0) = filteredIndexForDomain (objs demoFiltered ! 0)"
    using filterTableCPU_frame [OF l g, of specExt "()"] by blast
  show ?thesis
    using r l n g before by simp
qed

subsection \<open>C8: updateColumnField\<close>

text \<open>
  C8. For every table of the store, every index \<open>i\<close> of one of its fields and every new
  field, \<open>updateColumnField\<close> puts the new field at \<open>i\<close> and leaves the field at every
  other index; the table is the old table but for its fields (so its rows and its
  other attributes are the old ones), and the other objects and the console are as
  they were.
\<close>

theorem updateColumnField_replaces_one:
  assumes "this < length (objs st)"
    and "i < length (tableFields (objs st ! this))"
  shows "\<exists>st'.
     updateColumnField st this i newField = Some st' \<and>
     tableFields (objs st' ! this) ! i = newField \<and>
     length (tableFields (objs st' ! this)) = length (tableFields (objs st ! this)) \<and>
     (\<forall>j. j \<noteq> i \<longrightarrow> tableFields (objs st' ! this) ! j = tableFields (objs st ! this) ! j) \<and>
     objs st' ! this = (objs st ! this)\<lparr>tableFields := tableFields (objs st' ! this)\<rparr> \<and>
     allData (objs st' ! this) = allData (objs st ! this) \<and>
     length (objs st') = length (objs st) \<and>
     (\<forall>a. a \<noteq> this \<longrightarrow> objs st' ! a = objs st ! a) \<and>
     console st' = console st"
  using assms by (simp add: updateColumnField_def assignIndex_def setObj_def)

theorem updateColumnField_replaces_one_witness:
  "0 < length (objs demoState) \<and> 1 < length (tableFields (objs demoState ! 0)) \<and>
   map name (tableFields (objs demoState ! 0)) = [''v'', ''Lat''] \<and>
   (\<exists>st'. updateColumnField demoState 0 1 lonField = Some st' \<and>
      tableFields (objs st' ! 0) ! 1 = lonField \<and>
      tableFields (objs st' ! 0) ! 0 = tableFields (objs demoState ! 0) ! 0 \<and>
      allData (objs st' ! 0) = allData (objs demoState ! 0))"
proof -
  have l: "0 < length (objs demoState)" by code_simp
  have i: "1 < length (tableFields (objs demoState ! 0))" by code_simp
  have f: "map name (tableFields (objs demoState ! 0)) = [''v'', ''Lat'']" by code_simp
  obtain st' where
    r: "updateColumnField demoState 0 1 lonField = Some st'"
      "tableFields (objs st' ! 0) ! 1 = lonField"
      "\<forall>j. j \<noteq> 1 \<longrightarrow> tableFields (objs st' ! 0) ! j = tableFields (objs demoState ! 0) ! j"
      "allData (objs st' ! 0) = allData (objs demoState ! 0)"
    using updateColumnField_replaces_one [OF l i, of lonField] by blast
  show ?thesis
    using r l i f by simp
qed

subsection \<open>C9: looking up a column that is not there\<close>

text \<open>
  C9. For every table and every column name that is the name of none of its fields
  (names are compared as they are, with their case), \<open>getColumnField\<close> returns
  \<open>undefined\<close> and \<open>getValue\<close> returns \<open>null\<close> for every row index; neither throws;
  each writes one line to the console and leaves every object of the store as it was.
\<close>

theorem lookup_of_absent_column:
  assumes "columnName \<notin> set (map name (tableFields (objs st ! this)))"
  shows "getColumnField st this columnName =
           (st\<lparr>console := console st @
                 [columnName @ '' doesnt exist in dataset '' @ id_table (objs st ! this)]\<rparr>,
            None) \<and>
         getValue st this columnName rowIdx =
           (st\<lparr>console := console st @
                 [columnName @ '' doesnt exist in dataset '' @ id_table (objs st ! this)]\<rparr>,
            Inr None) \<and>
         objs (fst (getColumnField st this columnName)) = objs st \<and>
         objs (fst (getValue st this columnName rowIdx)) = objs st"
  using find_None_names [OF assms]
  by (simp add: getColumnField_def getValue_def assetField_def Let_def)

text \<open>The table has a field \<open>Lat\<close> and no field \<open>lat\<close>.\<close>

theorem lookup_of_absent_column_witness:
  "''lat'' \<notin> set (map name (tableFields (objs demoState ! 0))) \<and>
   snd (getColumnField demoState 0 ''lat'') = None \<and>
   snd (getValue demoState 0 ''lat'' 7) = Inr None \<and>
   console (fst (getValue demoState 0 ''lat'' 7)) = [''lat doesnt exist in dataset t1''] \<and>
   objs (fst (getValue demoState 0 ''lat'' 7)) = objs demoState"
proof -
  have h: "''lat'' \<notin> set (map name (tableFields (objs demoState ! 0)))" by code_simp
  have c: "console demoState = []" by code_simp
  have i: "id_table (objs demoState ! 0) = ''t1''" by code_simp
  show ?thesis
    using lookup_of_absent_column [OF h, of 7] h c i by simp
qed

subsection \<open>C10: sortDatasetByColumn with a column that is not there\<close>

text \<open>
  C10. For every dataset and every mode, \<open>sortDatasetByColumn\<close> with a column that is
  the name of none of the dataset's fields does not throw and returns the dataset
  itself (the same reference), with the store as it was.
\<close>

theorem sortDatasetByColumn_unknown_column:
  assumes "column \<notin> set (map name (tableFields (objs st ! dataset)))"
  shows "sortDatasetByColumn ext st dataset column mode = Inr (st, dataset)"
proof -
  have "findIndex (\<lambda>f. name f = column) (tableFields (objs st ! dataset)) < 0"
    using assms by (auto simp: findIndex_negative)
  then show ?thesis by (simp add: sortDatasetByColumn_def Let_def)
qed

theorem sortDatasetByColumn_unknown_column_witness:
  "''lat'' \<notin> set (map name (tableFields (objs demoState ! 0))) \<and>
   sortDatasetByColumn specExt demoState 0 ''lat'' ''DESCENDING'' = Inr (demoState, 0)"
proof -
  have h: "''lat'' \<notin> set (map name (tableFields (objs demoState ! 0)))" by code_simp
  show ?thesis
    using sortDatasetByColumn_unknown_column [OF h] h by simp
qed

end
